theory Spec2Isabelle
  imports Complex_Main
begin

section \<open>Values exchanged with the outside world\<close>

text \<open>
  The backend (\<^verbatim>\<open>src/backend/app.py\<close>) moves Python dictionaries, lists and strings
  around: search result bundles, log entries, HTTP response bodies. They are modelled by
  one datatype of JSON-like values. A dictionary is an association list in insertion
  order. Strings are lists of \<^typ>\<open>char\<close>, that is, code points below 256.
\<close>

datatype json =
    JNull
  | JStr string
  | JList "json list"
  | JDict "(string \<times> json) list"

text \<open>
  \<^verbatim>\<open>query.lower().strip()\<close>: \<^verbatim>\<open>str.lower\<close> on code points below 256 moves
  \<^verbatim>\<open>A-Z\<close> and the Latin-1 capitals (192 to 222 without the multiplication sign 215)
  up by 32; \<^verbatim>\<open>str.strip\<close> without argument removes leading and trailing characters
  for which \<^verbatim>\<open>str.isspace\<close> holds.
\<close>

definition lower_char :: "char \<Rightarrow> char" where
  "lower_char c =
     (let n = (of_char c :: nat)
      in if (65 \<le> n \<and> n \<le> 90) \<or> (192 \<le> n \<and> n \<le> 222 \<and> n \<noteq> 215)
         then char_of (n + 32) else c)"

definition lower :: "string \<Rightarrow> string" where
  "lower s = map lower_char s"

definition isspace :: "char \<Rightarrow> bool" where
  "isspace c =
     (let n = (of_char c :: nat)
      in (9 \<le> n \<and> n \<le> 13) \<or> (28 \<le> n \<and> n \<le> 32) \<or> n = 133 \<or> n = 160)"

definition strip :: "string \<Rightarrow> string" where
  "strip s = rev (dropWhile isspace (rev (dropWhile isspace s)))"

section \<open>EnhancedSearchTool\<close>

text \<open>
  The object's attributes as a record. \<^verbatim>\<open>session_id\<close> is not set by
  \<^verbatim>\<open>__init__\<close>; the owner assigns it afterwards and \<^verbatim>\<open>func\<close> reads it with
  \<^verbatim>\<open>getattr(self, 'session_id', 'default')\<close>, hence the option.
  \<^verbatim>\<open>time.time()\<close> is a float of seconds; the model uses \<^typ>\<open>real\<close> and so leaves
  floating-point rounding out.
\<close>

record EnhancedSearchTool =
  api_keys :: "string \<rightharpoonup> string"
  cache :: "string \<rightharpoonup> json"
  name :: string
  description :: string
  last_query_time :: real
  query_count :: int
  max_queries_per_session :: int
  tool_session_id :: "string option"

definition EnhancedSearchTool_init :: "(string \<rightharpoonup> string) \<Rightarrow> EnhancedSearchTool" where
  "EnhancedSearchTool_init keys =
     \<lparr> api_keys = keys,
       cache = Map.empty,
       name = ''enhanced_literature_search'',
       description = ''Search scientific literature across multiple sources'',
       last_query_time = 0,
       query_count = 0,
       max_queries_per_session = 20,
       tool_session_id = None \<rparr>"

text \<open>
  What one call of \<^verbatim>\<open>func\<close> receives from outside: the formatted wall-clock time of
  the log entry, the two readings of \<^verbatim>\<open>time.time()\<close> (line 59 and line 112), and the
  answers of the two providers. \<open>Inl\<close> is an exception (an instance of
  \<^verbatim>\<open>Exception\<close>, which is what the handlers catch) raised inside the respective
  \<^verbatim>\<open>try\<close> block; \<open>Inr\<close> of the arXiv answer is the list of paper dictionaries the
  comprehension builds, \<open>Inr\<close> of the SerpAPI answer is the dictionary
  \<^verbatim>\<open>get_dict()\<close> returns.
\<close>

record search_env =
  log_time :: string
  clock_enter :: real
  arxiv_reply :: "string + json list"
  serpapi_reply :: "string + (string \<times> json) list"
  clock_exit :: real

text \<open>
  What a call does to the outside, in program order: \<^verbatim>\<open>time.sleep(d)\<close>, the arXiv
  search (query, \<^verbatim>\<open>max_results\<close>) and the SerpAPI search (query, key, \<^verbatim>\<open>num\<close>).
\<close>

datatype effect =
    Sleep real
  | ArxivSearch string nat
  | GoogleSearch string string nat

record search_outcome =
  returned :: json
  effects :: "effect list"
  tool_after :: EnhancedSearchTool
  logs_after :: "string \<rightharpoonup> json list"

definition log_entry :: "string \<Rightarrow> string \<Rightarrow> string \<Rightarrow> string \<Rightarrow> json" where
  "log_entry ts agent action result =
     JDict [(''timestamp'', JStr ts), (''agent'', JStr agent),
            (''action'', JStr action), (''result'', JStr result)]"

text \<open>Lines 43 to 50: append to the session's log only if the session has one.\<close>

definition append_log ::
  "string \<Rightarrow> json \<Rightarrow> (string \<rightharpoonup> json list) \<Rightarrow> (string \<rightharpoonup> json list)" where
  "append_log sid entry logs =
     (case logs sid of None \<Rightarrow> logs | Some l \<Rightarrow> logs(sid \<mapsto> l @ [entry]))"

text \<open>Line 67: the value returned when the query limit is passed.\<close>

definition limit_reached :: json where
  "limit_reached =
     JDict [(''error'', JStr ''Query limit reached''),
            (''results'', JDict [(''arxiv'', JList []), (''web'', JList [])])]"

text \<open>
  Line 96: \<^verbatim>\<open>"serpapi" in self.api_keys and self.api_keys["serpapi"]\<close>; the key when
  it is present and not empty.
\<close>

definition serpapi_configured :: "EnhancedSearchTool \<Rightarrow> string option" where
  "serpapi_configured t =
     (case api_keys t ''serpapi'' of
        None \<Rightarrow> None
      | Some k \<Rightarrow> if k \<noteq> [] then Some k else None)"

text \<open>Line 60 and 61: the argument of \<^verbatim>\<open>time.sleep\<close>, if it is called.\<close>

definition rate_limit :: "real \<Rightarrow> EnhancedSearchTool \<Rightarrow> effect list" where
  "rate_limit current_time t =
     (if current_time - last_query_time t < 2
      then [Sleep (2 - (current_time - last_query_time t))] else [])"

text \<open>Lines 75 to 93: an exception leaves \<^verbatim>\<open>results["arxiv"]\<close> at \<^verbatim>\<open>[]\<close>.\<close>

definition arxiv_results :: "search_env \<Rightarrow> json list" where
  "arxiv_results env = (case arxiv_reply env of Inl e \<Rightarrow> [] | Inr papers \<Rightarrow> papers)"

text \<open>
  Lines 97 to 108: \<^verbatim>\<open>get_dict().get("organic_results", [])\<close>; an exception leaves
  \<^verbatim>\<open>results["web"]\<close> at \<^verbatim>\<open>[]\<close>.
\<close>

definition web_results :: "search_env \<Rightarrow> json" where
  "web_results env =
     (case serpapi_reply env of
        Inl e \<Rightarrow> JList []
      | Inr d \<Rightarrow> (case map_of d ''organic_results'' of None \<Rightarrow> JList [] | Some v \<Rightarrow> v))"

definition func ::
  "search_env \<Rightarrow> string \<Rightarrow> EnhancedSearchTool \<Rightarrow> (string \<rightharpoonup> json list) \<Rightarrow> search_outcome" where
  "func env query t logs =
     (let sid = (case tool_session_id t of None \<Rightarrow> ''default'' | Some s \<Rightarrow> s);
          logs' = append_log sid
                    (log_entry (log_time env) ''Search Tool'' ''Searching'' (''Query: '' @ query))
                    logs;
          cache_key = strip (lower query)
      in case cache t cache_key of
           Some bundle \<Rightarrow>
             \<lparr> returned = bundle, effects = [], tool_after = t, logs_after = logs' \<rparr>
         | None \<Rightarrow>
             (let waited = rate_limit (clock_enter env) t;
                  t1 = t\<lparr> query_count := query_count t + 1 \<rparr>
              in if query_count t1 > max_queries_per_session t1
                 then \<lparr> returned = limit_reached, effects = waited,
                        tool_after = t1, logs_after = logs' \<rparr>
                 else
                   (let papers = arxiv_results env;
                        web_key = (if length papers < 3 then serpapi_configured t1 else None);
                        web = (case web_key of None \<Rightarrow> JList [] | Some k \<Rightarrow> web_results env);
                        results = JDict [(''arxiv'', JList papers), (''web'', web)]
                    in \<lparr> returned = results,
                         effects = waited @ [ArxivSearch query 5] @
                           (case web_key of None \<Rightarrow> [] | Some k \<Rightarrow> [GoogleSearch query k 3]),
                         tool_after = t1\<lparr> cache := (cache t1)(cache_key \<mapsto> results),
                                         last_query_time := clock_exit env \<rparr>,
                         logs_after = logs' \<rparr>)))"

section \<open>Process-wide state and EnhancedAICoScientist\<close>

text \<open>
  The three module-level dictionaries (lines 21 to 23), \<^verbatim>\<open>os.environ\<close>, and the
  threads started so far. A thread is the call of \<^verbatim>\<open>research_worker\<close> with its four
  arguments and the place it has reached.
\<close>

record EnhancedAICoScientist =
  session_id :: string
  search_tool :: EnhancedSearchTool

datatype pc =
    SetRunning
  | Construct
  | Prepare EnhancedAICoScientist
  | Kickoff EnhancedAICoScientist
  | StoreResult json
  | SetCompleted
  | StoreError string
  | SetError
  | Done

text \<open>
  The places of a worker, named after the statement it executes next:
  \<^item> \<open>SetRunning\<close>: line 256, the first statement of the \<^verbatim>\<open>try\<close> block;
  \<^item> \<open>Construct\<close>: line 259, the constructor of the scientist;
  \<^item> \<open>Prepare\<close>: lines 230 to 241, agents, tasks, crew and the "Process Started" entry;
  \<^item> \<open>Kickoff\<close>: line 244, \<^verbatim>\<open>crew.kickoff()\<close> is running;
  \<^item> \<open>StoreResult\<close>, \<open>SetCompleted\<close>: lines 265 and 266;
  \<^item> \<open>StoreError\<close>, \<open>SetError\<close>: lines 271 and 272, with the message of line 269;
  \<^item> \<open>Done\<close>: the thread has ended.
  The scientist, with its search tool, is a local variable of the thread and travels with
  the place. Another thread or a request handler may run between any two places.
\<close>

record worker =
  w_session_id :: string
  w_research_goal :: string
  w_openai_api_key :: string
  w_serpapi_key :: "string option"
  w_pc :: pc

record app_state =
  research_processes :: "string \<rightharpoonup> string"
  research_results :: "string \<rightharpoonup> json"
  research_logs :: "string \<rightharpoonup> json list"
  environ :: "string \<rightharpoonup> string"
  threads :: "worker list"

definition initial_state :: app_state where
  "initial_state =
     \<lparr> research_processes = Map.empty, research_results = Map.empty,
       research_logs = Map.empty, environ = Map.empty, threads = [] \<rparr>"

text \<open>Lines 117 to 130. \<^verbatim>\<open>if serpapi_key:\<close> is false for \<^verbatim>\<open>None\<close> and for \<^verbatim>\<open>""\<close>.\<close>

definition EnhancedAICoScientist_init ::
  "string \<Rightarrow> string \<Rightarrow> string option \<Rightarrow> app_state \<Rightarrow> EnhancedAICoScientist \<times> app_state" where
  "EnhancedAICoScientist_init sid openai_key serp_key s =
     (let keys = (case serp_key of
                    None \<Rightarrow> Map.empty
                  | Some k \<Rightarrow> if k \<noteq> [] then [''serpapi'' \<mapsto> k] else Map.empty);
          tool = (EnhancedSearchTool_init keys)\<lparr> tool_session_id := Some sid \<rparr>
      in (\<lparr> session_id = sid, search_tool = tool \<rparr>,
          s\<lparr> environ := (environ s)(''OPENAI_API_KEY'' \<mapsto> openai_key),
             research_logs := (research_logs s)(sid \<mapsto> []) \<rparr>))"

text \<open>Lines 132 to 146.\<close>

definition log_activity ::
  "EnhancedAICoScientist \<Rightarrow> string \<Rightarrow> string \<Rightarrow> string \<Rightarrow> string \<Rightarrow> app_state \<Rightarrow> app_state" where
  "log_activity sci ts agent_name action result s =
     s\<lparr> research_logs :=
          append_log (session_id sci) (log_entry ts agent_name action result) (research_logs s) \<rparr>"

section \<open>The worker thread, statement by statement\<close>

text \<open>
  What the surroundings contribute to the next statement of a worker:
  \<^item> \<open>Proceed\<close>: the statement runs and raises nothing;
  \<^item> \<open>Throw e\<close>: the constructor (line 259) or the set-up of agents, tasks and crew
    (lines 230 to 239) raises an exception with text \<open>e\<close>;
  \<^item> \<open>Started ts\<close>: the set-up succeeds and "Process Started" is logged at \<open>ts\<close>;
  \<^item> \<open>ToolCall q env\<close>: during \<^verbatim>\<open>crew.kickoff()\<close> the runtime calls the search tool;
  \<^item> \<open>KickoffReturn r ts\<close>, \<open>KickoffRaise e ts\<close>: \<^verbatim>\<open>crew.kickoff()\<close> returns \<open>r\<close>
    or raises \<open>e\<close>, logged at \<open>ts\<close>.
  An event that does not fit the place of the worker changes nothing.
\<close>

datatype worker_event =
    Proceed
  | Throw string
  | Started string
  | ToolCall string search_env
  | KickoffReturn json string
  | KickoffRaise string string

definition research_worker ::
  "worker \<Rightarrow> pc \<Rightarrow> worker_event \<Rightarrow> app_state \<Rightarrow> pc \<times> app_state \<times> effect list" where
  "research_worker w p ev s =
     (case p of
        SetRunning \<Rightarrow>
          (case ev of
             Proceed \<Rightarrow>
               (Construct,
                s\<lparr> research_processes := (research_processes s)(w_session_id w \<mapsto> ''running'') \<rparr>,
                [])
           | _ \<Rightarrow> (p, s, []))
      | Construct \<Rightarrow>
          (case ev of
             Proceed \<Rightarrow>
               (let (sci, s') =
                      EnhancedAICoScientist_init
                        (w_session_id w) (w_openai_api_key w) (w_serpapi_key w) s
                in (Prepare sci, s', []))
           | Throw e \<Rightarrow> (StoreError (''Error in research process: '' @ e), s, [])
           | _ \<Rightarrow> (p, s, []))
      | Prepare sci \<Rightarrow>
          (case ev of
             Started ts \<Rightarrow>
               (Kickoff sci,
                log_activity sci ts ''Supervisor'' ''Process Started''
                  (''Goal: '' @ w_research_goal w) s,
                [])
           | Throw e \<Rightarrow> (StoreError (''Error in research process: '' @ e), s, [])
           | _ \<Rightarrow> (p, s, []))
      | Kickoff sci \<Rightarrow>
          (case ev of
             ToolCall q env \<Rightarrow>
               (let out = func env q (search_tool sci) (research_logs s)
                in (Kickoff (sci\<lparr> search_tool := tool_after out \<rparr>),
                    s\<lparr> research_logs := logs_after out \<rparr>,
                    effects out))
           | KickoffReturn r ts \<Rightarrow>
               (StoreResult r,
                log_activity sci ts ''Supervisor'' ''Process Completed''
                  ''Research results generated'' s,
                [])
           | KickoffRaise e ts \<Rightarrow>
               (let error_msg = ''Error in research process: '' @ e
                in (StoreError (''Error in research process: '' @ error_msg),
                    log_activity sci ts ''Supervisor'' ''Process Error'' error_msg s,
                    []))
           | _ \<Rightarrow> (p, s, []))
      | StoreResult r \<Rightarrow>
          (case ev of
             Proceed \<Rightarrow>
               (SetCompleted,
                s\<lparr> research_results := (research_results s)(w_session_id w \<mapsto> r) \<rparr>, [])
           | _ \<Rightarrow> (p, s, []))
      | SetCompleted \<Rightarrow>
          (case ev of
             Proceed \<Rightarrow>
               (Done,
                s\<lparr> research_processes := (research_processes s)(w_session_id w \<mapsto> ''completed'') \<rparr>,
                [])
           | _ \<Rightarrow> (p, s, []))
      | StoreError m \<Rightarrow>
          (case ev of
             Proceed \<Rightarrow>
               (SetError,
                s\<lparr> research_results :=
                     (research_results s)(w_session_id w \<mapsto> JDict [(''error'', JStr m)]) \<rparr>,
                [])
           | _ \<Rightarrow> (p, s, []))
      | SetError \<Rightarrow>
          (case ev of
             Proceed \<Rightarrow>
               (Done,
                s\<lparr> research_processes := (research_processes s)(w_session_id w \<mapsto> ''error'') \<rparr>,
                [])
           | _ \<Rightarrow> (p, s, []))
      | Done \<Rightarrow> (p, s, []))"

section \<open>The HTTP handlers\<close>

text \<open>
  \<^verbatim>\<open>int(time.time())\<close> truncates towards zero, and the f-string prints the integer in
  decimal.
\<close>

definition py_int :: "real \<Rightarrow> int" where
  "py_int x = (if 0 \<le> x then \<lfloor>x\<rfloor> else \<lceil>x\<rceil>)"

fun digits :: "nat \<Rightarrow> string" where
  "digits n =
     (if n < 10 then [char_of (48 + n)]
      else digits (n div 10) @ [char_of (48 + n mod 10)])"

definition py_str :: "int \<Rightarrow> string" where
  "py_str i = (if i < 0 then CHR ''-'' # digits (nat (- i)) else digits (nat i))"

definition new_session_id :: "real \<Rightarrow> string" where
  "new_session_id now = ''research_'' @ py_str (py_int now)"

text \<open>
  The body of a start request, read with \<^verbatim>\<open>data.get\<close>: \<open>None\<close> is a missing or null
  field. \<^verbatim>\<open>not data.get(...)\<close> also holds for the empty string. Where the thread is
  created both required fields are present, so the \<open>None\<close> cases there are never taken.
\<close>

record request_data =
  research_goal :: "string option"
  openai_api_key :: "string option"
  serpapi_key :: "string option"

definition falsy :: "string option \<Rightarrow> bool" where
  "falsy v = (case v of None \<Rightarrow> True | Some x \<Rightarrow> x = [])"

type_synonym response = "json \<times> nat"

definition start_research :: "request_data \<Rightarrow> real \<Rightarrow> app_state \<Rightarrow> app_state \<times> response" where
  "start_research data now s =
     (if falsy (research_goal data)
      then (s, (JDict [(''status'', JStr ''error''),
                       (''message'', JStr ''Research goal is required'')], 400))
      else if falsy (openai_api_key data)
      then (s, (JDict [(''status'', JStr ''error''),
                       (''message'', JStr ''OpenAI API key is required'')], 400))
      else
        (let sid = new_session_id now;
             thread = \<lparr> w_session_id = sid,
                        w_research_goal = (case research_goal data of None \<Rightarrow> [] | Some g \<Rightarrow> g),
                        w_openai_api_key = (case openai_api_key data of None \<Rightarrow> [] | Some k \<Rightarrow> k),
                        w_serpapi_key = serpapi_key data,
                        w_pc = SetRunning \<rparr>
         in (s\<lparr> research_logs := (research_logs s)(sid \<mapsto> []),
                threads := threads s @ [thread] \<rparr>,
             (JDict [(''status'', JStr ''success''),
                     (''session_id'', JStr sid),
                     (''message'', JStr ''Research process started'')], 200))))"

definition research_status :: "string \<Rightarrow> app_state \<Rightarrow> response" where
  "research_status sid s =
     (if research_processes s sid = None
      then (JDict [(''status'', JStr ''error''), (''message'', JStr ''Session not found'')], 404)
      else
        (let logs = (case research_logs s sid of None \<Rightarrow> [] | Some l \<Rightarrow> l);
             process_status =
               (case research_processes s sid of None \<Rightarrow> ''unknown'' | Some p \<Rightarrow> p);
             result = (if process_status = ''completed''
                       then (case research_results s sid of None \<Rightarrow> JNull | Some r \<Rightarrow> r)
                       else JNull)
         in (JDict [(''status'', JStr ''success''),
                    (''process_status'', JStr process_status),
                    (''logs'', JList logs),
                    (''result'', result)], 200)))"

section \<open>The running system\<close>

text \<open>
  One step of the whole process: a request handled by the HTTP layer, or the next
  statement of the worker thread with index \<open>i\<close>. Which thread moves next is the
  scheduler's choice, so it is part of the event. A step yields what leaves the process:
  the HTTP response, or the sleeps and outbound searches of a worker.
\<close>

datatype event =
    StartResearch request_data real
  | ResearchStatus string
  | Worker nat worker_event

datatype emitted =
    Http response
  | Outbound "effect list"

definition worker_step :: "nat \<Rightarrow> worker_event \<Rightarrow> app_state \<Rightarrow> app_state \<times> emitted" where
  "worker_step i ev s =
     (if i < length (threads s)
      then (let w = threads s ! i;
                (p, s', effs) = research_worker w (w_pc w) ev s
            in (s'\<lparr> threads := (threads s')[i := w\<lparr> w_pc := p \<rparr>] \<rparr>, Outbound effs))
      else (s, Outbound []))"

fun step :: "event \<Rightarrow> app_state \<Rightarrow> app_state \<times> emitted" where
  "step (StartResearch data now) s =
     (let (s', r) = start_research data now s in (s', Http r))"
| "step (ResearchStatus sid) s = (s, Http (research_status sid s))"
| "step (Worker i ev) s = worker_step i ev s"

fun run :: "event list \<Rightarrow> app_state \<Rightarrow> app_state" where
  "run [] s = s"
| "run (e # es) s = run es (fst (step e s))"

text \<open>A tool on its own, called again and again: query, and what the outside answers.\<close>

fun run_queries ::
  "(string \<times> search_env) list \<Rightarrow> EnhancedSearchTool \<Rightarrow> EnhancedSearchTool" where
  "run_queries [] t = t"
| "run_queries ((q, env) # qs) t = run_queries qs (tool_after (func env q t Map.empty))"

section \<open>Vocabulary of the properties\<close>

text \<open>
  The answers of \<^const>\<open>func\<close> do not depend on the log dictionary, so a tool can be
  followed through a series of calls with any logs. \<open>misses\<close> counts the calls of such a
  series that are not answered from the cache.
\<close>

fun misses :: "(string \<times> search_env) list \<Rightarrow> EnhancedSearchTool \<Rightarrow> nat" where
  "misses [] t = 0"
| "misses ((q, env) # qs) t =
     (if cache t (strip (lower q)) = None then 1 else 0)
       + misses qs (tool_after (func env q t Map.empty))"

text \<open>
  The calls of a series that reach line 112 and record the time stamp: those that miss
  the cache within the query limit.
\<close>

fun recording_calls :: "(string \<times> search_env) list \<Rightarrow> EnhancedSearchTool \<Rightarrow> nat" where
  "recording_calls [] t = 0"
| "recording_calls ((q, env) # qs) t =
     (if cache t (strip (lower q)) = None \<and> query_count t < max_queries_per_session t
      then 1 else 0)
       + recording_calls qs (tool_after (func env q t Map.empty))"

fun is_sleep :: "effect \<Rightarrow> bool" where
  "is_sleep (Sleep d) = True"
| "is_sleep (ArxivSearch q n) = False"
| "is_sleep (GoogleSearch q k n) = False"

fun is_google :: "effect \<Rightarrow> bool" where
  "is_google (GoogleSearch q k n) = True"
| "is_google (Sleep d) = False"
| "is_google (ArxivSearch q n) = False"

definition outbound_calls :: "effect list \<Rightarrow> effect list" where
  "outbound_calls es = filter (\<lambda>e. \<not> is_sleep e) es"

text \<open>The time a call spends in \<^verbatim>\<open>time.sleep\<close>.\<close>

fun slept :: "effect list \<Rightarrow> real" where
  "slept [] = 0"
| "slept (Sleep d # es) = d + slept es"
| "slept (ArxivSearch q n # es) = slept es"
| "slept (GoogleSearch q k n # es) = slept es"

text \<open>
  The budget-exceeded value in the shape the specification gives it, with the lists
  directly under the top-level keys that a regular bundle uses.
\<close>

definition spec_limit_reached :: json where
  "spec_limit_reached =
     JDict [(''error'', JStr ''Query limit reached''),
            (''arxiv'', JList []), (''web'', JList [])]"

text \<open>\<^verbatim>\<open>d.get(k)\<close> on a value that is a dictionary.\<close>

fun dict_get :: "string \<Rightarrow> json \<Rightarrow> json option" where
  "dict_get k (JDict d) = map_of d k"
| "dict_get k JNull = None"
| "dict_get k (JStr v) = None"
| "dict_get k (JList v) = None"

text \<open>
  A concrete history: twenty different queries, each answered by arXiv with no paper,
  the last one finished at time 1000.
\<close>

definition quiet_env :: search_env where
  "quiet_env =
     \<lparr> log_time = ''2024-01-01 00:00:00'', clock_enter = 1000,
       arxiv_reply = Inr [], serpapi_reply = Inl ''unused'', clock_exit = 1000 \<rparr>"

definition twenty_queries :: "(string \<times> search_env) list" where
  "twenty_queries =
     map (\<lambda>q. (q, quiet_env))
       [''a'', ''b'', ''c'', ''d'', ''e'', ''f'', ''g'', ''h'', ''i'', ''j'',
        ''k'', ''l'', ''m'', ''n'', ''o'', ''p'', ''q'', ''r'', ''s'', ''t'']"

text \<open>
  A tool as \<^verbatim>\<open>__init__\<close> leaves it, with \<^verbatim>\<open>session_id\<close> as its owner has assigned it
  (line 127) or not.
\<close>

definition tool_for :: "(string \<rightharpoonup> string) \<Rightarrow> string option \<Rightarrow> EnhancedSearchTool" where
  "tool_for keys owner = (EnhancedSearchTool_init keys)\<lparr> tool_session_id := owner \<rparr>"

definition full_tool :: EnhancedSearchTool where
  "full_tool = run_queries twenty_queries (tool_for Map.empty (Some ''research_100''))"

definition keyed_full_tool :: EnhancedSearchTool where
  "keyed_full_tool =
     run_queries twenty_queries (tool_for [''serpapi'' \<mapsto> ''key''] (Some ''research_100''))"

definition env_at :: "real \<Rightarrow> search_env" where
  "env_at c = quiet_env\<lparr> clock_enter := c, clock_exit := c \<rparr>"

definition one_paper_env :: search_env where
  "one_paper_env =
     \<lparr> log_time = ''2024-01-01 00:30:00'', clock_enter = 2000,
       arxiv_reply = Inr [JDict [(''title'', JStr ''A paper'')]],
       serpapi_reply = Inr [(''organic_results'', JList [JDict [(''title'', JStr ''A page'')]])],
       clock_exit = 2001 \<rparr>"

definition failing_arxiv_env :: search_env where
  "failing_arxiv_env =
     \<lparr> log_time = ''2024-01-01 00:45:00'', clock_enter = 3000,
       arxiv_reply = Inl ''HTTP 503'',
       serpapi_reply = Inr [(''organic_results'', JList [JDict [(''title'', JStr ''A page'')]])],
       clock_exit = 3002 \<rparr>"

text \<open>
  Two start requests, the two answers of a status poll, and a run in which the set-up of
  the agents fails (lines 230 to 239 raise).
\<close>

definition alice :: request_data where
  "alice = \<lparr> research_goal = Some ''protein folding'', openai_api_key = Some ''key-A'',
             serpapi_key = None \<rparr>"

definition bob :: request_data where
  "bob = \<lparr> research_goal = Some ''dark matter'', openai_api_key = Some ''key-B'',
           serpapi_key = Some ''serp-B'' \<rparr>"

definition setup_fails :: "event list" where
  "setup_fails =
     [StartResearch alice 100, Worker 0 Proceed, Worker 0 Proceed,
      Worker 0 (Throw ''1 validation error for Agent'')]"

definition not_found :: response where
  "not_found = (JDict [(''status'', JStr ''error''), (''message'', JStr ''Session not found'')], 404)"

definition status_body :: "string \<Rightarrow> json list \<Rightarrow> json \<Rightarrow> response" where
  "status_body process_status logs result =
     (JDict [(''status'', JStr ''success''), (''process_status'', JStr process_status),
             (''logs'', JList logs), (''result'', result)], 200)"

definition logs_of :: "string \<Rightarrow> app_state \<Rightarrow> json list" where
  "logs_of sid s = (case research_logs s sid of None \<Rightarrow> [] | Some l \<Rightarrow> l)"

text \<open>
  Status changes of one session between two consecutive states: none, the first write
  of the worker, or a terminal write after it.
\<close>

definition status_step_ok :: "string option \<Rightarrow> string option \<Rightarrow> bool" where
  "status_step_ok a b \<longleftrightarrow>
     b = a \<or> (a = None \<and> b = Some ''running'') \<or>
     (a = Some ''running'' \<and> (b = Some ''completed'' \<or> b = Some ''error''))"

text \<open>
  The place of thread \<open>i\<close>, if it exists. A thread has started once it has left its
  first place.
\<close>

definition pc_of :: "nat \<Rightarrow> app_state \<Rightarrow> pc option" where
  "pc_of i s = (if i < length (threads s) then Some (w_pc (threads s ! i)) else None)"

definition started :: "nat \<Rightarrow> app_state \<Rightarrow> bool" where
  "started i s \<longleftrightarrow> pc_of i s \<noteq> None \<and> pc_of i s \<noteq> Some SetRunning"

text \<open>
  What a step of thread \<open>i\<close> assigns to the status of its session: the step is taken
  from the state with an empty \<^verbatim>\<open>research_processes\<close>, and the entry of the session
  afterwards is what the step has written (\<open>None\<close> if it has written nothing). A step
  of the process writes the status \<open>v\<close> for thread \<open>i\<close> if it is a step of thread
  \<open>i\<close> that assigns \<open>v\<close>; a terminal write assigns \<^verbatim>\<open>"completed"\<close> or
  \<^verbatim>\<open>"error"\<close>. \<open>count_steps\<close> counts the steps of a run with a given property.
\<close>

definition written_status :: "nat \<Rightarrow> worker_event \<Rightarrow> app_state \<Rightarrow> string option" where
  "written_status i ev s =
     (if i < length (threads s)
      then research_processes (fst (worker_step i ev (s\<lparr> research_processes := Map.empty \<rparr>)))
             (w_session_id (threads s ! i))
      else None)"

definition status_write :: "string \<Rightarrow> nat \<Rightarrow> event \<Rightarrow> app_state \<Rightarrow> bool" where
  "status_write v i e s =
     (case e of
        Worker j ev \<Rightarrow> j = i \<and> written_status i ev s = Some v
      | StartResearch d now \<Rightarrow> False
      | ResearchStatus sid \<Rightarrow> False)"

definition terminal_write :: "nat \<Rightarrow> event \<Rightarrow> app_state \<Rightarrow> bool" where
  "terminal_write i e s \<longleftrightarrow>
     status_write ''completed'' i e s \<or> status_write ''error'' i e s"

fun count_steps :: "(event \<Rightarrow> app_state \<Rightarrow> bool) \<Rightarrow> event list \<Rightarrow> app_state \<Rightarrow> nat" where
  "count_steps P [] s = 0"
| "count_steps P (e # es) s = (if P e s then 1 else 0) + count_steps P es (fst (step e s))"

definition running_writes :: "nat \<Rightarrow> event list \<Rightarrow> app_state \<Rightarrow> nat" where
  "running_writes i evs s = count_steps (status_write ''running'' i) evs s"

definition terminal_writes :: "nat \<Rightarrow> event list \<Rightarrow> app_state \<Rightarrow> nat" where
  "terminal_writes i evs s = count_steps (terminal_write i) evs s"

text \<open>The record that line 271 stores: a dictionary with the one key \<^verbatim>\<open>"error"\<close>.\<close>

definition error_record :: "string \<Rightarrow> json" where
  "error_record m = JDict [(''error'', JStr m)]"

fun is_error_record :: "json option \<Rightarrow> bool" where
  "is_error_record (Some (JDict [(k, JStr m)])) = (k = ''error'')"
| "is_error_record r = False"

text \<open>
  What the status of a session has to be for a worker at a given place, if the worker
  is the only one with that session id; the states in which no two threads share a
  session id; and the invariant that ties the status entries to the places of the
  workers.
\<close>

fun pc_status :: "pc \<Rightarrow> string option \<Rightarrow> bool" where
  "pc_status SetRunning st = (st = None)"
| "pc_status Done st = (st = Some ''completed'' \<or> st = Some ''error'')"
| "pc_status Construct st = (st = Some ''running'')"
| "pc_status (Prepare sci) st = (st = Some ''running'')"
| "pc_status (Kickoff sci) st = (st = Some ''running'')"
| "pc_status (StoreResult r) st = (st = Some ''running'')"
| "pc_status SetCompleted st = (st = Some ''running'')"
| "pc_status (StoreError m) st = (st = Some ''running'')"
| "pc_status SetError st = (st = Some ''running'')"

definition sessions_apart :: "app_state \<Rightarrow> bool" where
  "sessions_apart s \<longleftrightarrow> distinct (map w_session_id (threads s))"

text \<open>
  What \<^verbatim>\<open>research_results\<close> has to hold for the session of a worker at a given place
  and with a given status, again if the worker is the only one with that session id.
\<close>

fun pc_result :: "pc \<Rightarrow> string option \<Rightarrow> json option \<Rightarrow> bool" where
  "pc_result SetCompleted st res = (res \<noteq> None)"
| "pc_result SetError st res = is_error_record res"
| "pc_result Done st res =
     ((st = Some ''completed'' \<longrightarrow> res \<noteq> None) \<and>
      (st = Some ''error'' \<longrightarrow> is_error_record res))"
| "pc_result SetRunning st res = True"
| "pc_result Construct st res = True"
| "pc_result (Prepare sci) st res = True"
| "pc_result (Kickoff sci) st res = True"
| "pc_result (StoreResult r) st res = True"
| "pc_result (StoreError m) st res = True"

definition status_inv :: "app_state \<Rightarrow> bool" where
  "status_inv s \<longleftrightarrow>
     (\<forall>i < length (threads s).
        pc_status (w_pc (threads s ! i)) (research_processes s (w_session_id (threads s ! i))) \<and>
        pc_result (w_pc (threads s ! i)) (research_processes s (w_session_id (threads s ! i)))
          (research_results s (w_session_id (threads s ! i)))) \<and>
     (\<forall>sid. sid \<notin> set (map w_session_id (threads s)) \<longrightarrow> research_processes s sid = None)"

text \<open>
  The places inside the \<^verbatim>\<open>try\<close> block at which the constructor, the set-up or the
  runtime can raise, the event that stands for an exception there, and the message that
  \<^verbatim>\<open>research_worker\<close> then stores (line 269, after line 248 for an exception of the
  runtime).
\<close>

fun in_try :: "pc \<Rightarrow> bool" where
  "in_try Construct = True"
| "in_try (Prepare sci) = True"
| "in_try (Kickoff sci) = True"
| "in_try SetRunning = False"
| "in_try (StoreResult r) = False"
| "in_try SetCompleted = False"
| "in_try (StoreError m) = False"
| "in_try SetError = False"
| "in_try Done = False"

fun failure :: "pc \<Rightarrow> string \<Rightarrow> string \<Rightarrow> worker_event" where
  "failure (Kickoff sci) e ts = KickoffRaise e ts"
| "failure Construct e ts = Throw e"
| "failure (Prepare sci) e ts = Throw e"
| "failure SetRunning e ts = Throw e"
| "failure (StoreResult r) e ts = Throw e"
| "failure SetCompleted e ts = Throw e"
| "failure (StoreError m) e ts = Throw e"
| "failure SetError e ts = Throw e"
| "failure Done e ts = Throw e"

fun reported :: "pc \<Rightarrow> string \<Rightarrow> string" where
  "reported (Kickoff sci) e = ''Error in research process: '' @ (''Error in research process: '' @ e)"
| "reported Construct e = ''Error in research process: '' @ e"
| "reported (Prepare sci) e = ''Error in research process: '' @ e"
| "reported SetRunning e = ''Error in research process: '' @ e"
| "reported (StoreResult r) e = ''Error in research process: '' @ e"
| "reported SetCompleted e = ''Error in research process: '' @ e"
| "reported (StoreError m) e = ''Error in research process: '' @ e"
| "reported SetError e = ''Error in research process: '' @ e"
| "reported Done e = ''Error in research process: '' @ e"

text \<open>
  More runs: two requests in the same second; two sessions whose scientists have both
  been constructed; a run in which \<^verbatim>\<open>crew.kickoff()\<close> raises; a run in which one
  session completes and another fails; and a session that has reached
  \<^verbatim>\<open>crew.kickoff()\<close>, with its scientist and the log entry written on the way.
\<close>

definition collision :: "event list" where
  "collision =
     [StartResearch alice 100, StartResearch bob (201 / 2),
      Worker 0 Proceed, Worker 0 Proceed, Worker 0 (Throw ''1 validation error for Agent''),
      Worker 0 Proceed, Worker 0 Proceed]"

definition both_constructed :: "event list" where
  "both_constructed =
     [StartResearch alice 100, StartResearch bob 101,
      Worker 0 Proceed, Worker 0 Proceed, Worker 1 Proceed, Worker 1 Proceed]"

definition kickoff_fails :: "event list" where
  "kickoff_fails =
     [StartResearch alice 100, Worker 0 Proceed, Worker 0 Proceed,
      Worker 0 (Started ''2024-01-01 10:00:00''),
      Worker 0 (KickoffRaise ''Incorrect API key provided'' ''2024-01-01 10:00:05''),
      Worker 0 Proceed, Worker 0 Proceed]"

definition one_succeeds_one_fails :: "event list" where
  "one_succeeds_one_fails =
     [StartResearch alice 100, StartResearch bob 101,
      Worker 0 Proceed, Worker 0 Proceed, Worker 0 (Started ''2024-01-01 10:00:00''),
      Worker 1 Proceed, Worker 1 Proceed,
      Worker 0 (KickoffReturn (JStr ''three research directions'') ''2024-01-01 10:05:00''),
      Worker 1 (Throw ''1 validation error for Agent''),
      Worker 0 Proceed, Worker 1 Proceed, Worker 0 Proceed, Worker 1 Proceed]"

definition alice_running :: "event list" where
  "alice_running =
     [StartResearch alice 100, Worker 0 Proceed, Worker 0 Proceed,
      Worker 0 (Started ''2024-01-01 10:00:00'')]"

definition alice_scientist :: EnhancedAICoScientist where
  "alice_scientist =
     \<lparr> session_id = ''research_100'',
       search_tool = (EnhancedSearchTool_init Map.empty)\<lparr> tool_session_id := Some ''research_100'' \<rparr> \<rparr>"

definition started_entry :: json where
  "started_entry =
     log_entry ''2024-01-01 10:00:00'' ''Supervisor'' ''Process Started''
       ''Goal: protein folding''"

definition fresh_scientist :: "worker \<Rightarrow> EnhancedAICoScientist" where
  "fresh_scientist w =
     \<lparr> session_id = w_session_id w,
       search_tool =
         (EnhancedSearchTool_init
            (case w_serpapi_key w of
               None \<Rightarrow> Map.empty
             | Some k \<Rightarrow> if k \<noteq> [] then [''serpapi'' \<mapsto> k] else Map.empty))
         \<lparr> tool_session_id := Some (w_session_id w) \<rparr> \<rparr>"

section \<open>Facts about func\<close>

lemma func_hit:
  "cache t (strip (lower q)) = Some b \<Longrightarrow>
   returned (func env q t logs) = b \<and> effects (func env q t logs) = [] \<and>
   tool_after (func env q t logs) = t"
  by (simp add: func_def)

lemma func_over_budget:
  "cache t (strip (lower q)) = None \<Longrightarrow> max_queries_per_session t \<le> query_count t \<Longrightarrow>
   returned (func env q t logs) = limit_reached \<and>
   effects (func env q t logs) = rate_limit (clock_enter env) t \<and>
   tool_after (func env q t logs) = t\<lparr> query_count := query_count t + 1 \<rparr>"
  by (simp add: func_def Let_def)

lemma func_within_budget:
  "cache t (strip (lower q)) = None \<Longrightarrow> query_count t < max_queries_per_session t \<Longrightarrow>
   returned (func env q t logs) =
     JDict [(''arxiv'', JList (arxiv_results env)),
            (''web'', if length (arxiv_results env) < 3
                      then (case serpapi_configured t of
                              None \<Rightarrow> JList [] | Some k \<Rightarrow> web_results env)
                      else JList [])] \<and>
   effects (func env q t logs) =
     rate_limit (clock_enter env) t @ [ArxivSearch q 5] @
       (if length (arxiv_results env) < 3
        then (case serpapi_configured t of None \<Rightarrow> [] | Some k \<Rightarrow> [GoogleSearch q k 3])
        else []) \<and>
   tool_after (func env q t logs) =
     t\<lparr> query_count := query_count t + 1,
        cache := (cache t)(strip (lower q) \<mapsto> returned (func env q t logs)),
        last_query_time := clock_exit env \<rparr>"
  by (simp add: func_def Let_def serpapi_configured_def)

lemma func_logs_independent:
  "returned (func env q t logs) = returned (func env q t logs') \<and>
   effects (func env q t logs) = effects (func env q t logs') \<and>
   tool_after (func env q t logs) = tool_after (func env q t logs')"
  by (simp add: func_def Let_def split: option.split)

lemma func_max: "max_queries_per_session (tool_after (func env q t logs)) = max_queries_per_session t"
  by (simp add: func_def Let_def split: option.split)

lemma func_api_keys: "api_keys (tool_after (func env q t logs)) = api_keys t"
  by (simp add: func_def Let_def split: option.split)

lemma func_count:
  "query_count (tool_after (func env q t logs)) =
     query_count t + (if cache t (strip (lower q)) = None then 1 else 0)"
  by (simp add: func_def Let_def split: option.split)

lemma func_cache_kept:
  "cache t k = Some b \<Longrightarrow> cache (tool_after (func env q t logs)) k = Some b"
  by (auto simp add: func_def Let_def split: option.split)

lemma run_queries_max: "max_queries_per_session (run_queries qs t) = max_queries_per_session t"
  by (induction qs arbitrary: t) (auto simp: func_max)

lemma run_queries_count: "query_count (run_queries qs t) = query_count t + int (misses qs t)"
  by (induction qs arbitrary: t) (auto simp: func_count)

lemma run_queries_cache_kept:
  "cache t k = Some b \<Longrightarrow> cache (run_queries qs t) k = Some b"
  by (induction qs arbitrary: t) (auto simp: func_cache_kept)

lemma func_cache_other:
  "k \<noteq> strip (lower q) \<Longrightarrow> cache (tool_after (func env q t logs)) k = cache t k"
  by (simp add: func_def Let_def split: option.split)

lemma func_last_query_time_le:
  "last_query_time t \<le> c \<Longrightarrow> clock_exit env \<le> c \<Longrightarrow>
   last_query_time (tool_after (func env q t logs)) \<le> c"
  by (simp add: func_def Let_def split: option.split)

lemma run_queries_api_keys: "api_keys (run_queries qs t) = api_keys t"
  by (induction qs arbitrary: t) (auto simp: func_api_keys)

lemma run_queries_cache_other:
  "k \<notin> set (map (\<lambda>(q, env). strip (lower q)) qs) \<Longrightarrow> cache (run_queries qs t) k = cache t k"
  by (induction qs arbitrary: t) (auto simp: func_cache_other)

lemma run_queries_last_query_time_le:
  "last_query_time t \<le> c \<Longrightarrow> \<forall>(q, env) \<in> set qs. clock_exit env \<le> c \<Longrightarrow>
   last_query_time (run_queries qs t) \<le> c"
  by (induction qs arbitrary: t) (auto simp: func_last_query_time_le)

lemma misses_distinct:
  "distinct (map (\<lambda>(q, env). strip (lower q)) qs) \<Longrightarrow>
   \<forall>(q, env) \<in> set qs. cache t (strip (lower q)) = None \<Longrightarrow>
   misses qs t = length qs"
proof (induction qs arbitrary: t)
  case Nil
  then show ?case by simp
next
  case (Cons a qs)
  obtain q env where a: "a = (q, env)" by (cases a)
  let ?t = "tool_after (func env q t Map.empty)"
  have "\<forall>(q', env') \<in> set qs. cache ?t (strip (lower q')) = None"
  proof clarify
    fix q' env' assume m: "(q', env') \<in> set qs"
    with Cons.prems(1) a have "strip (lower q') \<noteq> strip (lower q)" by force
    then have "cache ?t (strip (lower q')) = cache t (strip (lower q'))"
      by (rule func_cache_other)
    with Cons.prems(2) m show "cache ?t (strip (lower q')) = None" by auto
  qed
  moreover from Cons.prems(1) a have "distinct (map (\<lambda>(q, env). strip (lower q)) qs)" by simp
  ultimately have "misses qs ?t = length qs" by (rule Cons.IH[rotated])
  with Cons.prems(2) a show ?case by simp
qed

lemma keys_eval:
  "map (\<lambda>(q, env). strip (lower q)) twenty_queries =
   [''a'', ''b'', ''c'', ''d'', ''e'', ''f'', ''g'', ''h'', ''i'', ''j'',
    ''k'', ''l'', ''m'', ''n'', ''o'', ''p'', ''q'', ''r'', ''s'', ''t'']"
  unfolding twenty_queries_def by code_simp

lemma twenty_misses: "misses twenty_queries (tool_for keys owner) = 20"
proof -
  have "distinct (map (\<lambda>(q, env). strip (lower q)) twenty_queries)"
    unfolding keys_eval by simp
  moreover have "\<forall>(q, env) \<in> set twenty_queries.
      cache (tool_for keys owner) (strip (lower q)) = None"
    by (simp add: tool_for_def EnhancedSearchTool_init_def)
  ultimately have "misses twenty_queries (tool_for keys owner) = length twenty_queries"
    by (rule misses_distinct)
  then show ?thesis by (simp add: twenty_queries_def)
qed

lemma outbound_rate_limit: "outbound_calls (rate_limit c t) = []"
  by (simp add: outbound_calls_def rate_limit_def)

lemma twenty_tool_facts:
  "query_count (run_queries twenty_queries (tool_for keys owner)) = 20"
  "max_queries_per_session (run_queries twenty_queries (tool_for keys owner)) = 20"
  "api_keys (run_queries twenty_queries (tool_for keys owner)) = keys"
  "last_query_time (run_queries twenty_queries (tool_for keys owner)) \<le> 1000"
proof -
  show "query_count (run_queries twenty_queries (tool_for keys owner)) = 20"
    by (simp add: run_queries_count twenty_misses) (simp add: tool_for_def EnhancedSearchTool_init_def)
  show "max_queries_per_session (run_queries twenty_queries (tool_for keys owner)) = 20"
    by (simp add: run_queries_max) (simp add: tool_for_def EnhancedSearchTool_init_def)
  show "api_keys (run_queries twenty_queries (tool_for keys owner)) = keys"
    by (simp add: run_queries_api_keys) (simp add: tool_for_def EnhancedSearchTool_init_def)
  have "last_query_time (tool_for keys owner) \<le> 1000"
    by (simp add: tool_for_def EnhancedSearchTool_init_def)
  moreover have "\<forall>(q, env) \<in> set twenty_queries. clock_exit env \<le> 1000"
    by (simp add: twenty_queries_def quiet_env_def)
  ultimately show "last_query_time (run_queries twenty_queries (tool_for keys owner)) \<le> 1000"
    by (rule run_queries_last_query_time_le)
qed

lemma twenty_tool_fresh_key:
  "k \<notin> set [''a'', ''b'', ''c'', ''d'', ''e'', ''f'', ''g'', ''h'', ''i'', ''j'',
    ''k'', ''l'', ''m'', ''n'', ''o'', ''p'', ''q'', ''r'', ''s'', ''t''] \<Longrightarrow>
   cache (run_queries twenty_queries (tool_for keys owner)) k = None"
  using run_queries_cache_other[of k twenty_queries "tool_for keys owner"]
  unfolding keys_eval by (simp add: tool_for_def EnhancedSearchTool_init_def)

lemma key_u: "strip (lower ''u'') = ''u''" by code_simp
lemma key_v: "strip (lower ''v'') = ''v''" by code_simp

lemma key_dm1: "strip (lower ''Dark Matter '') = ''dark matter''" by code_simp
lemma key_dm2: "strip (lower '' dark matter'') = ''dark matter''" by code_simp

lemma func_caches_answer:
  assumes "cache t (strip (lower q)) \<noteq> None \<or> query_count t < max_queries_per_session t"
  shows "cache (tool_after (func env q t logs)) (strip (lower q)) = Some (returned (func env q t logs))"
proof (cases "cache t (strip (lower q))")
  case None
  with assms have "query_count t < max_queries_per_session t" by simp
  with None show ?thesis by (simp add: func_within_budget)
next
  case (Some b)
  then show ?thesis by (simp add: func_hit)
qed

lemma key_qf: "strip (lower ''quantum foo'') = ''quantum foo''" by code_simp

lemma func_within_budget_effects:
  "cache t (strip (lower q)) = None \<Longrightarrow> query_count t < max_queries_per_session t \<Longrightarrow>
   effects (func env q t logs) =
     rate_limit (clock_enter env) t @ [ArxivSearch q 5] @
       (if length (arxiv_results env) < 3
        then (case serpapi_configured t of None \<Rightarrow> [] | Some k \<Rightarrow> [GoogleSearch q k 3])
        else [])"
  by (simp add: func_within_budget)

lemma func_within_budget_returned:
  "cache t (strip (lower q)) = None \<Longrightarrow> query_count t < max_queries_per_session t \<Longrightarrow>
   returned (func env q t logs) =
     JDict [(''arxiv'', JList (arxiv_results env)),
            (''web'', if length (arxiv_results env) < 3
                      then (case serpapi_configured t of
                              None \<Rightarrow> JList [] | Some k \<Rightarrow> web_results env)
                      else JList [])]"
  by (simp add: func_within_budget)

lemma func_over_budget_effects:
  "cache t (strip (lower q)) = None \<Longrightarrow> max_queries_per_session t \<le> query_count t \<Longrightarrow>
   effects (func env q t logs) = rate_limit (clock_enter env) t"
  by (simp add: func_over_budget)

lemma google_rate_limit: "filter is_google (rate_limit c t) = []"
  by (simp add: rate_limit_def)

lemma slept_append: "slept (xs @ ys) = slept xs + slept ys"
  by (induction xs rule: slept.induct) auto

lemma func_miss_effects:
  assumes "cache t (strip (lower q)) = None"
  shows "effects (func env q t logs) =
           rate_limit (clock_enter env) t @ outbound_calls (effects (func env q t logs)) \<and>
         slept (effects (func env q t logs)) = slept (rate_limit (clock_enter env) t)"
proof (cases "query_count t < max_queries_per_session t")
  case True
  let ?calls = "[ArxivSearch q 5] @
       (if length (arxiv_results env) < 3
        then (case serpapi_configured t of None \<Rightarrow> [] | Some k \<Rightarrow> [GoogleSearch q k 3])
        else [])"
  have eff: "effects (func env q t logs) = rate_limit (clock_enter env) t @ ?calls"
    by (rule func_within_budget_effects[OF assms True])
  have calls: "outbound_calls ?calls = ?calls \<and> slept ?calls = 0"
  proof (cases "length (arxiv_results env) < 3")
    case True
    then show ?thesis
      by (cases "serpapi_configured t") (simp_all add: outbound_calls_def)
  next
    case False
    then show ?thesis by (simp add: outbound_calls_def)
  qed
  have "outbound_calls (rate_limit (clock_enter env) t @ ?calls) = ?calls"
    using calls outbound_rate_limit[of "clock_enter env" t]
    by (simp only: outbound_calls_def filter_append append_Nil)
  moreover have "slept (rate_limit (clock_enter env) t @ ?calls) = slept (rate_limit (clock_enter env) t)"
    using calls by (simp add: slept_append)
  ultimately show ?thesis
    unfolding eff by simp
next
  case False
  then have over: "max_queries_per_session t \<le> query_count t" by simp
  show ?thesis
    by (simp add: func_over_budget_effects[OF assms over] outbound_rate_limit)
qed

lemma rate_limit_waits: "last_query_time t + 2 \<le> c + slept (rate_limit c t)"
  by (simp add: rate_limit_def)

lemma func_last_query_time:
  "last_query_time (tool_after (func env q t logs)) =
     (if cache t (strip (lower q)) = None \<and> query_count t < max_queries_per_session t
      then clock_exit env else last_query_time t)"
  by (simp add: func_def Let_def split: option.split)

lemma run_queries_last_query_time_kept:
  "recording_calls qs t = 0 \<Longrightarrow> last_query_time (run_queries qs t) = last_query_time t"
proof (induction qs arbitrary: t)
  case Nil
  then show ?case by simp
next
  case (Cons a qs)
  obtain q env where a: "a = (q, env)" by (cases a)
  from Cons.prems a
  have no: "\<not> (cache t (strip (lower q)) = None \<and> query_count t < max_queries_per_session t)"
    and rest: "recording_calls qs (tool_after (func env q t Map.empty)) = 0"
    by (auto split: if_splits)
  from rest have "last_query_time (run_queries qs (tool_after (func env q t Map.empty)))
      = last_query_time (tool_after (func env q t Map.empty))"
    by (rule Cons.IH)
  also have "\<dots> = last_query_time t"
    using no by (simp only: func_last_query_time if_False)
  finally show ?case using a by simp
qed

lemma key_U: "strip (lower '' U '') = ''u''" by code_simp

section \<open>The query limit\<close>

text \<open>
  Claim C3, as the code has it. Once a new tool, bound to a session or not, has had
  twenty calls that missed the cache, every further call that misses the cache
  returns the value of line 67, raises the counter by one, writes neither the cache nor
  the time stamp, and makes no outbound call (it may still sleep). The value returned is
  \<^const>\<open>limit_reached\<close>, with the two empty lists nested under \<^verbatim>\<open>"results"\<close>.
\<close>

theorem limit_reached_after_twenty:
  assumes "t = run_queries qs (tool_for keys owner)"
    and "20 \<le> misses qs (tool_for keys owner)"
    and "cache t (strip (lower q)) = None"
  shows "returned (func env q t logs) = limit_reached \<and>
         query_count (tool_after (func env q t logs)) = query_count t + 1 \<and>
         cache (tool_after (func env q t logs)) = cache t \<and>
         last_query_time (tool_after (func env q t logs)) = last_query_time t \<and>
         outbound_calls (effects (func env q t logs)) = []"
proof -
  have "max_queries_per_session t = 20"
    using assms(1) by (simp add: run_queries_max) (simp add: tool_for_def EnhancedSearchTool_init_def)
  moreover have "query_count t = int (misses qs (tool_for keys owner))"
    using assms(1) by (simp add: run_queries_count) (simp add: tool_for_def EnhancedSearchTool_init_def)
  ultimately have "max_queries_per_session t \<le> query_count t"
    using assms(2) by simp
  with assms(3) show ?thesis
    by (simp add: func_over_budget outbound_rate_limit)
qed

text \<open>The twenty-first query after the twenty queries of \<^const>\<open>twenty_queries\<close>.\<close>

theorem limit_reached_after_twenty_witness:
  "20 \<le> misses twenty_queries (tool_for Map.empty (Some ''research_100'')) \<and>
   cache full_tool (strip (lower ''u'')) = None \<and>
   returned (func (env_at 2000) ''u'' full_tool Map.empty) = limit_reached \<and>
   query_count (tool_after (func (env_at 2000) ''u'' full_tool Map.empty)) = 21 \<and>
   outbound_calls (effects (func (env_at 2000) ''u'' full_tool Map.empty)) = []"
proof -
  have h1: "full_tool = run_queries twenty_queries (tool_for Map.empty (Some ''research_100''))"
    by (simp add: full_tool_def)
  have h2: "20 \<le> misses twenty_queries (tool_for Map.empty (Some ''research_100''))"
    by (simp add: twenty_misses)
  have h3: "cache full_tool (strip (lower ''u'')) = None"
    by (simp add: full_tool_def key_u twenty_tool_fresh_key)
  have "query_count full_tool = 20"
    by (simp add: full_tool_def twenty_tool_facts)
  with limit_reached_after_twenty[OF h1 h2 h3, of "env_at 2000" Map.empty] h2 h3
  show ?thesis by simp
qed

text \<open>
  Claim C3 as stated gives the returned value the shape of \<^const>\<open>spec_limit_reached\<close>.
  The twenty-first query returns another value: it has no top-level \<^verbatim>\<open>"arxiv"\<close> and
  \<^verbatim>\<open>"web"\<close> entries.
\<close>

theorem limit_reached_shape_counterexample:
  "misses twenty_queries (tool_for Map.empty (Some ''research_100'')) = 20 \<and>
   cache full_tool (strip (lower ''u'')) = None \<and>
   returned (func (env_at 2000) ''u'' full_tool Map.empty) \<noteq> spec_limit_reached \<and>
   dict_get ''arxiv'' (returned (func (env_at 2000) ''u'' full_tool Map.empty)) = None \<and>
   dict_get ''web'' (returned (func (env_at 2000) ''u'' full_tool Map.empty)) = None \<and>
   dict_get ''results'' (returned (func (env_at 2000) ''u'' full_tool Map.empty)) =
     Some (JDict [(''arxiv'', JList []), (''web'', JList [])])"
proof -
  have miss: "cache full_tool (strip (lower ''u'')) = None"
    by (simp add: full_tool_def key_u twenty_tool_fresh_key)
  have "max_queries_per_session full_tool \<le> query_count full_tool"
    by (simp add: full_tool_def twenty_tool_facts)
  with miss have "returned (func (env_at 2000) ''u'' full_tool Map.empty) = limit_reached"
    by (simp add: func_over_budget)
  with miss show ?thesis
    by (simp add: twenty_misses limit_reached_def spec_limit_reached_def)
qed

section \<open>The cache\<close>

text \<open>
  Claim C4, as the code has it. Take two queries with the same normalised text, the
  first one answered from the cache or within the query limit, and any calls in between.
  The second call returns exactly what the first returned, has no effect on the outside
  (no sleep, no outbound call) and leaves the tool as it was (counter and time stamp
  included).
\<close>

theorem same_key_served_from_cache:
  assumes "strip (lower q2) = strip (lower q1)"
    and "cache t (strip (lower q1)) \<noteq> None \<or> query_count t < max_queries_per_session t"
  shows "returned (func env2 q2 (run_queries between (tool_after (func env1 q1 t logs1))) logs2)
           = returned (func env1 q1 t logs1) \<and>
         effects (func env2 q2 (run_queries between (tool_after (func env1 q1 t logs1))) logs2) = [] \<and>
         tool_after (func env2 q2 (run_queries between (tool_after (func env1 q1 t logs1))) logs2)
           = run_queries between (tool_after (func env1 q1 t logs1))"
proof -
  let ?t1 = "tool_after (func env1 q1 t logs1)"
  from assms(2) have "cache ?t1 (strip (lower q1)) = Some (returned (func env1 q1 t logs1))"
    by (rule func_caches_answer)
  then have "cache (run_queries between ?t1) (strip (lower q2)) = Some (returned (func env1 q1 t logs1))"
    unfolding assms(1) by (rule run_queries_cache_kept)
  then show ?thesis by (simp add: func_hit)
qed

text \<open>
  A first query on a new tool, twenty other queries, then the first one again in
  another spelling.
\<close>

theorem same_key_served_from_cache_witness:
  "strip (lower '' dark matter'') = strip (lower ''Dark Matter '') \<and>
   query_count (EnhancedSearchTool_init Map.empty)
     < max_queries_per_session (EnhancedSearchTool_init Map.empty) \<and>
   returned (func (env_at 5000) '' dark matter''
      (run_queries twenty_queries
         (tool_after (func one_paper_env ''Dark Matter '' (EnhancedSearchTool_init Map.empty) Map.empty)))
      Map.empty)
     = JDict [(''arxiv'', JList [JDict [(''title'', JStr ''A paper'')]]), (''web'', JList [])] \<and>
   effects (func (env_at 5000) '' dark matter''
      (run_queries twenty_queries
         (tool_after (func one_paper_env ''Dark Matter '' (EnhancedSearchTool_init Map.empty) Map.empty)))
      Map.empty) = []"
proof -
  have h1: "strip (lower '' dark matter'') = strip (lower ''Dark Matter '')"
    by (simp add: key_dm1 key_dm2)
  have h2: "query_count (EnhancedSearchTool_init Map.empty)
     < max_queries_per_session (EnhancedSearchTool_init Map.empty)"
    by (simp add: EnhancedSearchTool_init_def)
  have h3: "cache (EnhancedSearchTool_init Map.empty) (strip (lower ''Dark Matter '')) \<noteq> None \<or>
     query_count (EnhancedSearchTool_init Map.empty)
     < max_queries_per_session (EnhancedSearchTool_init Map.empty)"
    using h2 by simp
  have first: "returned (func one_paper_env ''Dark Matter '' (EnhancedSearchTool_init Map.empty) Map.empty)
     = JDict [(''arxiv'', JList [JDict [(''title'', JStr ''A paper'')]]), (''web'', JList [])]"
  proof -
    have m: "cache (EnhancedSearchTool_init Map.empty) (strip (lower ''Dark Matter '')) = None"
      by (simp add: EnhancedSearchTool_init_def)
    show ?thesis
      using func_within_budget[OF m h2, of one_paper_env Map.empty]
      by (simp add: EnhancedSearchTool_init_def one_paper_env_def arxiv_results_def
          serpapi_configured_def)
  qed
  from same_key_served_from_cache[OF h1 h3, of "env_at 5000" twenty_queries one_paper_env
      Map.empty Map.empty] h1 h2 first
  show ?thesis by simp
qed

text \<open>
  Claim C4 as stated speaks of every pair of queries with the same normalised text.
  When the first of them is already over the limit, nothing is cached, and the second
  call is counted again: the counter goes from 21 to 22.
\<close>

theorem over_budget_pair_counterexample:
  "strip (lower '' dark matter'') = strip (lower ''Dark Matter '') \<and>
   query_count (tool_after (func (env_at 2000) ''Dark Matter '' full_tool Map.empty)) = 21 \<and>
   cache (tool_after (func (env_at 2000) ''Dark Matter '' full_tool Map.empty))
     (strip (lower ''Dark Matter '')) = None \<and>
   query_count (tool_after (func (env_at 2001) '' dark matter''
      (tool_after (func (env_at 2000) ''Dark Matter '' full_tool Map.empty)) Map.empty)) = 22"
proof -
  have miss: "cache full_tool (strip (lower ''Dark Matter '')) = None"
    by (simp add: full_tool_def key_dm1 twenty_tool_fresh_key)
  have over: "max_queries_per_session full_tool \<le> query_count full_tool"
    by (simp add: full_tool_def twenty_tool_facts)
  have cnt: "query_count full_tool = 20" "max_queries_per_session full_tool = 20"
    by (simp_all add: full_tool_def twenty_tool_facts)
  have t1: "tool_after (func (env_at 2000) ''Dark Matter '' full_tool Map.empty)
      = full_tool\<lparr> query_count := 21 \<rparr>"
    using miss over cnt by (simp add: func_over_budget)
  have miss2: "cache (full_tool\<lparr> query_count := 21 \<rparr>) (strip (lower '' dark matter'')) = None"
    using miss by (simp add: key_dm1 key_dm2)
  have over2: "max_queries_per_session (full_tool\<lparr> query_count := 21 \<rparr>)
      \<le> query_count (full_tool\<lparr> query_count := 21 \<rparr>)"
    using cnt by simp
  show ?thesis
    unfolding t1 using miss func_over_budget[OF miss2 over2, of "env_at 2001" Map.empty]
    by (simp add: key_dm1 key_dm2)
qed

section \<open>Provider failures\<close>

text \<open>
  Claim C7. In a call that reaches the arXiv search (a cache miss within the limit), an
  exception of that search leaves the list of papers empty, the call returns a regular
  bundle, and the SerpAPI search follows whenever a key is configured.
\<close>

theorem arxiv_failure_contained:
  assumes "cache t (strip (lower q)) = None"
    and "query_count t < max_queries_per_session t"
    and "arxiv_reply env = Inl e"
  shows "returned (func env q t logs) =
           JDict [(''arxiv'', JList []),
                  (''web'', case serpapi_configured t of
                              None \<Rightarrow> JList [] | Some k \<Rightarrow> web_results env)] \<and>
         effects (func env q t logs) =
           rate_limit (clock_enter env) t @ [ArxivSearch q 5] @
             (case serpapi_configured t of None \<Rightarrow> [] | Some k \<Rightarrow> [GoogleSearch q k 3])"
proof -
  from assms(3) have "arxiv_results env = []"
    by (simp add: arxiv_results_def)
  with func_within_budget[OF assms(1,2), of env logs] show ?thesis
    by simp
qed

text \<open>
  arXiv fails with a key configured: the bundle has no papers and the web results.
\<close>

theorem arxiv_failure_contained_witness:
  "cache (EnhancedSearchTool_init [''serpapi'' \<mapsto> ''key'']) (strip (lower ''quantum foo'')) = None \<and>
   query_count (EnhancedSearchTool_init [''serpapi'' \<mapsto> ''key''])
     < max_queries_per_session (EnhancedSearchTool_init [''serpapi'' \<mapsto> ''key'']) \<and>
   arxiv_reply failing_arxiv_env = Inl ''HTTP 503'' \<and>
   returned (func failing_arxiv_env ''quantum foo''
      (EnhancedSearchTool_init [''serpapi'' \<mapsto> ''key'']) Map.empty) =
     JDict [(''arxiv'', JList []), (''web'', JList [JDict [(''title'', JStr ''A page'')]])] \<and>
   effects (func failing_arxiv_env ''quantum foo''
      (EnhancedSearchTool_init [''serpapi'' \<mapsto> ''key'']) Map.empty) =
     [ArxivSearch ''quantum foo'' 5, GoogleSearch ''quantum foo'' ''key'' 3]"
proof -
  have h1: "cache (EnhancedSearchTool_init [''serpapi'' \<mapsto> ''key''])
      (strip (lower ''quantum foo'')) = None"
    by (simp add: EnhancedSearchTool_init_def)
  have h2: "query_count (EnhancedSearchTool_init [''serpapi'' \<mapsto> ''key''])
     < max_queries_per_session (EnhancedSearchTool_init [''serpapi'' \<mapsto> ''key''])"
    by (simp add: EnhancedSearchTool_init_def)
  have h3: "arxiv_reply failing_arxiv_env = Inl ''HTTP 503''"
    by (simp add: failing_arxiv_env_def)
  from arxiv_failure_contained[OF h1 h2 h3, of Map.empty] h1 h2 h3
  show ?thesis
    by (simp add: EnhancedSearchTool_init_def serpapi_configured_def web_results_def
        rate_limit_def failing_arxiv_env_def)
qed

section \<open>The web fallback\<close>

text \<open>
  Claim C8, as the code has it. In a call that misses the cache and is within the query
  limit, the SerpAPI search is made exactly when fewer than three papers were found and
  a key is configured; otherwise the bundle's web list is empty.
\<close>

theorem web_search_gate:
  assumes "cache t (strip (lower q)) = None"
    and "query_count t < max_queries_per_session t"
  shows "(filter is_google (effects (func env q t logs)) \<noteq> []) =
           (length (arxiv_results env) < 3 \<and> serpapi_configured t \<noteq> None) \<and>
         (\<not> (length (arxiv_results env) < 3 \<and> serpapi_configured t \<noteq> None) \<longrightarrow>
            dict_get ''web'' (returned (func env q t logs)) = Some (JList []))"
proof -
  have eff: "filter is_google (effects (func env q t logs)) =
      (if length (arxiv_results env) < 3
       then (case serpapi_configured t of None \<Rightarrow> [] | Some k \<Rightarrow> [GoogleSearch q k 3])
       else [])"
  proof (cases "length (arxiv_results env) < 3")
    case True
    then show ?thesis
      by (cases "serpapi_configured t")
         (simp_all add: func_within_budget_effects[OF assms] google_rate_limit)
  next
    case False
    then show ?thesis
      by (simp add: func_within_budget_effects[OF assms] google_rate_limit)
  qed
  have ret: "dict_get ''web'' (returned (func env q t logs)) =
      Some (if length (arxiv_results env) < 3
            then (case serpapi_configured t of
                    None \<Rightarrow> JList [] | Some k \<Rightarrow> web_results env)
            else JList [])"
    by (simp only: func_within_budget_returned[OF assms]) simp
  show ?thesis
  proof (cases "length (arxiv_results env) < 3")
    case True
    then show ?thesis
      unfolding eff ret by (cases "serpapi_configured t") simp_all
  next
    case False
    then show ?thesis
      unfolding eff ret by simp
  qed
qed

text \<open>
  One paper and no key: no SerpAPI search, and the web list stays empty.
\<close>

theorem web_search_gate_witness:
  "cache (EnhancedSearchTool_init Map.empty) (strip (lower ''quantum foo'')) = None \<and>
   query_count (EnhancedSearchTool_init Map.empty)
     < max_queries_per_session (EnhancedSearchTool_init Map.empty) \<and>
   length (arxiv_results one_paper_env) = 1 \<and>
   serpapi_configured (EnhancedSearchTool_init Map.empty) = None \<and>
   filter is_google (effects (func one_paper_env ''quantum foo''
      (EnhancedSearchTool_init Map.empty) Map.empty)) = [] \<and>
   dict_get ''web'' (returned (func one_paper_env ''quantum foo''
      (EnhancedSearchTool_init Map.empty) Map.empty)) = Some (JList [])"
proof -
  have h1: "cache (EnhancedSearchTool_init Map.empty) (strip (lower ''quantum foo'')) = None"
    by (simp add: EnhancedSearchTool_init_def)
  have h2: "query_count (EnhancedSearchTool_init Map.empty)
     < max_queries_per_session (EnhancedSearchTool_init Map.empty)"
    by (simp add: EnhancedSearchTool_init_def)
  have h3: "length (arxiv_results one_paper_env) = 1"
    by (simp add: arxiv_results_def one_paper_env_def)
  have h4: "serpapi_configured (EnhancedSearchTool_init Map.empty) = None"
    by (simp add: serpapi_configured_def EnhancedSearchTool_init_def)
  from web_search_gate[OF h1 h2, of one_paper_env Map.empty] h1 h2 h3 h4
  show ?thesis by simp
qed

text \<open>
  Claim C8 as stated speaks of every call that misses the cache. A call over the query
  limit makes no SerpAPI search although a key is configured and fewer than three papers
  (none at all) were found.
\<close>

theorem over_budget_no_web_counterexample:
  "cache keyed_full_tool (strip (lower ''quantum foo'')) = None \<and>
   serpapi_configured keyed_full_tool = Some ''key'' \<and>
   length (arxiv_results one_paper_env) < 3 \<and>
   effects (func one_paper_env ''quantum foo'' keyed_full_tool Map.empty) = [] \<and>
   returned (func one_paper_env ''quantum foo'' keyed_full_tool Map.empty) = limit_reached"
proof -
  have miss: "cache keyed_full_tool (strip (lower ''quantum foo'')) = None"
    by (simp add: keyed_full_tool_def key_qf twenty_tool_fresh_key)
  have over: "max_queries_per_session keyed_full_tool \<le> query_count keyed_full_tool"
    by (simp add: keyed_full_tool_def twenty_tool_facts)
  have "last_query_time keyed_full_tool \<le> 1000"
    unfolding keyed_full_tool_def by (rule twenty_tool_facts)
  then have quiet: "rate_limit (clock_enter one_paper_env) keyed_full_tool = []"
    by (simp add: rate_limit_def one_paper_env_def)
  have key: "serpapi_configured keyed_full_tool = Some ''key''"
    by (simp add: serpapi_configured_def keyed_full_tool_def twenty_tool_facts)
  from func_over_budget[OF miss over, of one_paper_env Map.empty] miss quiet key
  show ?thesis
    by (simp add: arxiv_results_def one_paper_env_def)
qed

section \<open>Spacing of queries\<close>

text \<open>
  Claim C9, as the code has it. Take a call that missed the cache within the query
  limit, then any calls that record no time stamp (cache hits and calls over the limit),
  then a call that misses the cache. The time stamp is still the second clock reading of
  the first call; the last call sleeps for what is missing to two seconds before anything
  else, so that its outbound calls come at least two seconds after the time stamp; and it
  records its own second clock reading if it is within the limit and leaves the time
  stamp alone if it is not.
\<close>

theorem spacing_after_recorded_query:
  assumes "cache t (strip (lower q1)) = None"
    and "query_count t < max_queries_per_session t"
    and "recording_calls between (tool_after (func env1 q1 t logs1)) = 0"
    and "t' = run_queries between (tool_after (func env1 q1 t logs1))"
    and "cache t' (strip (lower q2)) = None"
  shows "last_query_time t' = clock_exit env1 \<and>
         effects (func env2 q2 t' logs2) =
           (if clock_enter env2 - clock_exit env1 < 2
            then [Sleep (2 - (clock_enter env2 - clock_exit env1))] else []) @
           outbound_calls (effects (func env2 q2 t' logs2)) \<and>
         clock_exit env1 + 2 \<le> clock_enter env2 + slept (effects (func env2 q2 t' logs2)) \<and>
         last_query_time (tool_after (func env2 q2 t' logs2)) =
           (if query_count t' < max_queries_per_session t' then clock_exit env2
            else clock_exit env1)"
proof -
  let ?t1 = "tool_after (func env1 q1 t logs1)"
  have "last_query_time ?t1 = clock_exit env1"
    using assms(1,2) by (simp only: func_last_query_time) simp
  with assms(3,4) have stamp: "last_query_time t' = clock_exit env1"
    by (simp add: run_queries_last_query_time_kept)
  have rl: "rate_limit (clock_enter env2) t' =
      (if clock_enter env2 - clock_exit env1 < 2
       then [Sleep (2 - (clock_enter env2 - clock_exit env1))] else [])"
    by (simp add: rate_limit_def stamp)
  have w: "last_query_time t' + 2 \<le> clock_enter env2 + slept (rate_limit (clock_enter env2) t')"
    by (rule rate_limit_waits)
  have after: "last_query_time (tool_after (func env2 q2 t' logs2)) =
      (if query_count t' < max_queries_per_session t' then clock_exit env2 else clock_exit env1)"
    using assms(5) stamp by (simp only: func_last_query_time) simp
  from rl w after stamp func_miss_effects[OF assms(5), of env2 logs2]
  show ?thesis by simp
qed

text \<open>
  A first query, the same query again in another spelling (a cache hit), and a second
  query that arrives half a second after the first has finished and sleeps for one and a
  half.
\<close>

theorem spacing_after_recorded_query_witness:
  "cache (EnhancedSearchTool_init Map.empty) (strip (lower ''u'')) = None \<and>
   query_count (EnhancedSearchTool_init Map.empty)
     < max_queries_per_session (EnhancedSearchTool_init Map.empty) \<and>
   recording_calls [('' U '', env_at 2001)]
     (tool_after (func one_paper_env ''u'' (EnhancedSearchTool_init Map.empty) Map.empty)) = 0 \<and>
   cache (run_queries [('' U '', env_at 2001)]
      (tool_after (func one_paper_env ''u'' (EnhancedSearchTool_init Map.empty) Map.empty)))
     (strip (lower ''v'')) = None \<and>
   effects (func (env_at (4003 / 2)) ''v''
      (run_queries [('' U '', env_at 2001)]
        (tool_after (func one_paper_env ''u'' (EnhancedSearchTool_init Map.empty) Map.empty)))
      Map.empty) = [Sleep (3 / 2), ArxivSearch ''v'' 5] \<and>
   last_query_time (tool_after (func (env_at (4003 / 2)) ''v''
      (run_queries [('' U '', env_at 2001)]
        (tool_after (func one_paper_env ''u'' (EnhancedSearchTool_init Map.empty) Map.empty)))
      Map.empty)) = 4003 / 2"
proof -
  let ?t0 = "EnhancedSearchTool_init Map.empty"
  let ?t1 = "tool_after (func one_paper_env ''u'' ?t0 Map.empty)"
  let ?t' = "run_queries [('' U '', env_at 2001)] ?t1"
  have h1: "cache ?t0 (strip (lower ''u'')) = None"
    by (simp add: EnhancedSearchTool_init_def)
  have h2: "query_count ?t0 < max_queries_per_session ?t0"
    by (simp add: EnhancedSearchTool_init_def)
  have hit: "cache ?t1 (strip (lower '' U '')) \<noteq> None"
    using func_caches_answer[of ?t0 "''u''" one_paper_env Map.empty] h2
    by (simp add: key_u key_U)
  then have h3: "recording_calls [('' U '', env_at 2001)] ?t1 = 0"
    by simp
  from hit obtain b where b: "cache ?t1 (strip (lower '' U '')) = Some b" by auto
  have same: "?t' = ?t1"
    using func_hit[OF b, of "env_at 2001" Map.empty] by simp
  have h5: "cache ?t' (strip (lower ''v'')) = None"
    unfolding same
    using func_cache_other[of "strip (lower ''v'')" "''u''" one_paper_env ?t0 Map.empty]
    by (simp add: key_u key_v EnhancedSearchTool_init_def)
  have c: "query_count ?t' < max_queries_per_session ?t'"
    unfolding same by (simp add: func_count func_max) (simp add: EnhancedSearchTool_init_def)
  have k: "serpapi_configured ?t' = None"
    unfolding same
    by (simp add: serpapi_configured_def func_api_keys) (simp add: EnhancedSearchTool_init_def)
  have out: "outbound_calls (effects (func (env_at (4003 / 2)) ''v'' ?t' Map.empty))
      = [ArxivSearch ''v'' 5]"
  proof -
    have "length (arxiv_results (env_at (4003 / 2))) < 3"
      by (simp add: env_at_def quiet_env_def arxiv_results_def)
    with k func_within_budget_effects[OF h5 c, of "env_at (4003 / 2)" Map.empty]
      outbound_rate_limit[of "clock_enter (env_at (4003 / 2))" ?t']
    show ?thesis
      by (simp add: outbound_calls_def)
  qed
  from spacing_after_recorded_query[OF h1 h2 h3 refl h5, of "env_at (4003 / 2)" Map.empty]
    h1 h2 h3 h5 out c
  show ?thesis
    by (simp add: env_at_def one_paper_env_def quiet_env_def)
qed

text \<open>
  Claim C9 as stated speaks of any two consecutive queries that miss the cache. Calls
  over the limit leave the time stamp alone: the twenty-first and twenty-second query,
  half a second apart, both run without any sleep.
\<close>

theorem over_budget_spacing_counterexample:
  "cache full_tool (strip (lower ''u'')) = None \<and>
   cache (tool_after (func (env_at 2000) ''u'' full_tool Map.empty)) (strip (lower ''v'')) = None \<and>
   effects (func (env_at 2000) ''u'' full_tool Map.empty) = [] \<and>
   effects (func (env_at (4001 / 2)) ''v''
      (tool_after (func (env_at 2000) ''u'' full_tool Map.empty)) Map.empty) = [] \<and>
   clock_enter (env_at (4001 / 2)) - clock_exit (env_at 2000) < 2"
proof -
  have miss: "cache full_tool (strip (lower ''u'')) = None"
    by (simp add: full_tool_def key_u twenty_tool_fresh_key)
  have over: "max_queries_per_session full_tool \<le> query_count full_tool"
    by (simp add: full_tool_def twenty_tool_facts)
  have cnt: "query_count full_tool = 20" "max_queries_per_session full_tool = 20"
    by (simp_all add: full_tool_def twenty_tool_facts)
  have last: "last_query_time full_tool \<le> 1000"
    unfolding full_tool_def by (rule twenty_tool_facts)
  have t1: "tool_after (func (env_at 2000) ''u'' full_tool Map.empty)
      = full_tool\<lparr> query_count := 21 \<rparr>"
    using miss over cnt by (simp add: func_over_budget)
  have miss2: "cache (full_tool\<lparr> query_count := 21 \<rparr>) (strip (lower ''v'')) = None"
    by (simp add: full_tool_def key_v twenty_tool_fresh_key)
  have over2: "max_queries_per_session (full_tool\<lparr> query_count := 21 \<rparr>)
      \<le> query_count (full_tool\<lparr> query_count := 21 \<rparr>)"
    using cnt by simp
  show ?thesis
    unfolding t1
    using miss miss2 last func_over_budget_effects[OF miss over, of "env_at 2000" Map.empty]
      func_over_budget_effects[OF miss2 over2, of "env_at (4001 / 2)" Map.empty]
    by (simp add: env_at_def rate_limit_def quiet_env_def)
qed

section \<open>Facts about the running system\<close>

lemma sid_100: "new_session_id 100 = ''research_100''" by code_simp
lemma sid_100_half: "new_session_id (201 / 2) = ''research_100''" by code_simp
lemma sid_101: "new_session_id 101 = ''research_101''" by code_simp

lemma research_worker_threads:
  "threads (fst (snd (research_worker w p ev s))) = threads s"
  by (simp add: research_worker_def EnhancedAICoScientist_init_def log_activity_def Let_def
      split: pc.split worker_event.split)

lemma research_worker_processes_frame:
  "sid \<noteq> w_session_id w \<Longrightarrow>
   research_processes (fst (snd (research_worker w p ev s))) sid = research_processes s sid"
  by (simp add: research_worker_def EnhancedAICoScientist_init_def log_activity_def Let_def
      split: pc.split worker_event.split)

lemma research_worker_results_frame:
  "sid \<noteq> w_session_id w \<Longrightarrow>
   research_results (fst (snd (research_worker w p ev s))) sid = research_results s sid"
  by (simp add: research_worker_def EnhancedAICoScientist_init_def log_activity_def Let_def
      split: pc.split worker_event.split)

lemma worker_step_unfold:
  "i < length (threads s) \<Longrightarrow>
   worker_step i ev s =
     (let w = threads s ! i; r = research_worker w (w_pc w) ev s
      in ((fst (snd r))\<lparr> threads := (threads s)[i := w\<lparr> w_pc := fst r \<rparr>] \<rparr>,
          Outbound (snd (snd r))))"
  by (simp add: worker_step_def Let_def case_prod_beta research_worker_threads)

lemma worker_step_threads:
  "i < length (threads s) \<Longrightarrow>
   threads (fst (worker_step i ev s)) =
     (threads s)[i := (threads s ! i)\<lparr> w_pc := fst (research_worker (threads s ! i) (w_pc (threads s ! i)) ev s) \<rparr>]"
  by (simp add: worker_step_unfold Let_def)

lemma worker_step_processes:
  "i < length (threads s) \<Longrightarrow>
   research_processes (fst (worker_step i ev s)) =
     research_processes (fst (snd (research_worker (threads s ! i) (w_pc (threads s ! i)) ev s)))"
  by (simp add: worker_step_unfold Let_def)

lemma worker_step_results:
  "i < length (threads s) \<Longrightarrow>
   research_results (fst (worker_step i ev s)) =
     research_results (fst (snd (research_worker (threads s ! i) (w_pc (threads s ! i)) ev s)))"
  by (simp add: worker_step_unfold Let_def)

lemma worker_step_idle: "\<not> i < length (threads s) \<Longrightarrow> fst (worker_step i ev s) = s"
  by (simp add: worker_step_def)

lemma start_research_accepted:
  "\<not> falsy (research_goal d) \<Longrightarrow> \<not> falsy (openai_api_key d) \<Longrightarrow>
   start_research d now s =
     (s\<lparr> research_logs := (research_logs s)(new_session_id now \<mapsto> []),
         threads := threads s @
           [\<lparr> w_session_id = new_session_id now,
              w_research_goal = (case research_goal d of None \<Rightarrow> [] | Some g \<Rightarrow> g),
              w_openai_api_key = (case openai_api_key d of None \<Rightarrow> [] | Some k \<Rightarrow> k),
              w_serpapi_key = serpapi_key d, w_pc = SetRunning \<rparr>] \<rparr>,
      (JDict [(''status'', JStr ''success''), (''session_id'', JStr (new_session_id now)),
              (''message'', JStr ''Research process started'')], 200))"
  by (simp add: start_research_def Let_def)

lemma step_threads_grow:
  "length (threads s) \<le> length (threads (fst (step e s))) \<and>
   (\<forall>i < length (threads s). w_session_id (threads (fst (step e s)) ! i) = w_session_id (threads s ! i))"
proof (cases e)
  case (StartResearch d now)
  then show ?thesis
    by (auto simp: start_research_def Let_def nth_append)
next
  case (ResearchStatus sid)
  then show ?thesis by simp
next
  case (Worker i ev)
  show ?thesis
  proof (cases "i < length (threads s)")
    case True
    then show ?thesis
      using Worker by (auto simp: worker_step_threads nth_list_update)
  next
    case False
    then show ?thesis using Worker by (simp add: worker_step_idle)
  qed
qed

lemma run_threads_grow:
  "length (threads s) \<le> length (threads (run evs s)) \<and>
   (\<forall>i < length (threads s). w_session_id (threads (run evs s) ! i) = w_session_id (threads s ! i))"
proof (induction evs arbitrary: s)
  case Nil
  then show ?case by simp
next
  case (Cons e evs)
  from step_threads_grow[of s e] Cons.IH[of "fst (step e s)"]
  show ?case by (auto intro: order_trans)
qed

lemmas eval_defs =
  initial_state_def alice_def bob_def start_research_def falsy_def worker_step_def
  research_worker_def EnhancedAICoScientist_init_def EnhancedSearchTool_init_def
  log_activity_def append_log_def log_entry_def research_status_def Let_def
  sid_100 sid_100_half sid_101

lemma research_status_error:
  "research_processes s sid = Some ''error'' \<Longrightarrow>
   research_status sid s = status_body ''error'' (logs_of sid s) JNull"
  by (simp add: research_status_def status_body_def logs_of_def)

lemma research_status_running:
  "research_processes s sid = Some ''running'' \<Longrightarrow>
   research_status sid s = status_body ''running'' (logs_of sid s) JNull"
  by (simp add: research_status_def status_body_def logs_of_def)

lemma research_status_unknown:
  "research_processes s sid = None \<Longrightarrow> research_status sid s = not_found"
  by (simp add: research_status_def not_found_def)

lemma run_append: "run (xs @ ys) s = run ys (run xs s)"
  by (induction xs arbitrary: s) auto

lemma research_worker_done:
  "fst (research_worker w p ev s) = Done \<longleftrightarrow>
     p = Done \<or> (ev = Proceed \<and> (p = SetCompleted \<or> p = SetError))"
  by (simp add: research_worker_def EnhancedAICoScientist_init_def Let_def
      split: pc.split worker_event.split)

lemma step_pc_of:
  "pc_of i (fst (step e s)) =
     (case e of
        StartResearch d now \<Rightarrow>
          if i = length (threads s) \<and> \<not> falsy (research_goal d) \<and> \<not> falsy (openai_api_key d)
          then Some SetRunning else pc_of i s
      | ResearchStatus sid \<Rightarrow> pc_of i s
      | Worker j ev \<Rightarrow>
          if j = i \<and> i < length (threads s)
          then Some (fst (research_worker (threads s ! i) (w_pc (threads s ! i)) ev s))
          else pc_of i s)"
proof (cases e)
  case (StartResearch d now)
  then show ?thesis
    by (auto simp: pc_of_def start_research_def Let_def nth_append)
next
  case (ResearchStatus sid)
  then show ?thesis by simp
next
  case (Worker j ev)
  show ?thesis
  proof (cases "j < length (threads s)")
    case True
    then show ?thesis
      using Worker by (auto simp: pc_of_def worker_step_threads nth_list_update)
  next
    case False
    then show ?thesis
      using Worker by (auto simp: worker_step_idle)
  qed
qed

lemma step_done_stays: "pc_of i s = Some Done \<Longrightarrow> pc_of i (fst (step e s)) = Some Done"
  unfolding step_pc_of
  by (auto simp: research_worker_done pc_of_def split: event.split)

lemma run_done_stays: "pc_of i s = Some Done \<Longrightarrow> pc_of i (run evs s) = Some Done"
  by (induction evs arbitrary: s) (auto simp: step_done_stays)

lemma status_step_ok_refl: "status_step_ok a a"
  by (simp add: status_step_ok_def)

lemma step_session_ids:
  "map w_session_id (threads s) =
     take (length (threads s)) (map w_session_id (threads (fst (step e s))))"
  using step_threads_grow[of s e]
  by (auto intro!: nth_equalityI)

lemma step_apart: "sessions_apart (fst (step e s)) \<Longrightarrow> sessions_apart s"
  unfolding sessions_apart_def
  by (subst step_session_ids[of s e]) (rule distinct_take)

lemma run_apart: "sessions_apart (run evs s) \<Longrightarrow> sessions_apart s"
  by (induction evs arbitrary: s) (auto dest: step_apart)

lemma worker_pc_step:
  "pc_of i s = Some p \<Longrightarrow>
   pc_of i (fst (worker_step i ev s)) = Some (fst (research_worker (threads s ! i) p ev s))"
  using step_pc_of[of i "Worker i ev" s]
  by (auto simp: pc_of_def split: if_splits)

lemma research_worker_local:
  "fst (research_worker w p ev s) = fst (research_worker w p ev s') \<and>
   snd (snd (research_worker w p ev s)) = snd (snd (research_worker w p ev s'))"
  using func_logs_independent
  by (cases p; cases ev)
     (simp_all add: research_worker_def EnhancedAICoScientist_init_def Let_def)

lemma research_worker_construct:
  "fst (research_worker w Construct Proceed s) = Prepare (fresh_scientist w)"
  by (simp add: research_worker_def EnhancedAICoScientist_init_def Let_def fresh_scientist_def)

lemma worker_step_other:
  "j \<noteq> i \<Longrightarrow> i < length (threads s) \<Longrightarrow> threads (fst (worker_step j ev s)) ! i = threads s ! i"
  by (cases "j < length (threads s)") (simp_all add: worker_step_threads worker_step_idle)

lemma start_research_other:
  "i < length (threads s) \<Longrightarrow> threads (fst (start_research d now s)) ! i = threads s ! i"
  by (simp add: start_research_def Let_def nth_append)

lemma research_worker_status:
  "pc_status p (research_processes s (w_session_id w)) \<Longrightarrow>
   pc_result p (research_processes s (w_session_id w)) (research_results s (w_session_id w)) \<Longrightarrow>
   pc_status (fst (research_worker w p ev s))
     (research_processes (fst (snd (research_worker w p ev s))) (w_session_id w)) \<and>
   pc_result (fst (research_worker w p ev s))
     (research_processes (fst (snd (research_worker w p ev s))) (w_session_id w))
     (research_results (fst (snd (research_worker w p ev s))) (w_session_id w)) \<and>
   status_step_ok (research_processes s (w_session_id w))
     (research_processes (fst (snd (research_worker w p ev s))) (w_session_id w))"
  by (cases p; cases ev)
     (auto simp add: research_worker_def EnhancedAICoScientist_init_def log_activity_def Let_def
        status_step_ok_def)

lemma count_steps_once:
  assumes stays: "\<And>e s. D s \<Longrightarrow> D (fst (step e s))"
    and enters: "\<And>e s. P e s \<longleftrightarrow> \<not> D s \<and> D (fst (step e s))"
  shows "count_steps P evs s = (if \<not> D s \<and> D (run evs s) then 1 else 0)"
proof (induction evs arbitrary: s)
  case Nil
  then show ?case by simp
next
  case (Cons e evs)
  have run_stays: "D (run es u)" if "D u" for es u
    using that by (induction es arbitrary: u) (auto simp: stays)
  show ?case
  proof (cases "D s")
    case True
    then have "\<not> P e s" by (simp add: enters)
    moreover from True have "D (fst (step e s))" by (rule stays)
    ultimately show ?thesis using True Cons.IH[of "fst (step e s)"] by simp
  next
    case False
    show ?thesis
    proof (cases "P e s")
      case True
      then have d: "D (fst (step e s))" by (simp add: enters)
      then have "D (run evs (fst (step e s)))" by (rule run_stays)
      with True d False Cons.IH[of "fst (step e s)"] show ?thesis by simp
    next
      case nt: False
      with False have "\<not> D (fst (step e s))" by (simp add: enters)
      with nt False Cons.IH[of "fst (step e s)"] show ?thesis by simp
    qed
  qed
qed

lemma written_status_place:
  "written_status i ev s =
     (case pc_of i s of
        None \<Rightarrow> None
      | Some p \<Rightarrow>
          if ev = Proceed \<and> p = SetRunning then Some ''running''
          else if ev = Proceed \<and> p = SetCompleted then Some ''completed''
          else if ev = Proceed \<and> p = SetError then Some ''error''
          else None)"
proof (cases "i < length (threads s)")
  case False
  then show ?thesis by (simp add: written_status_def pc_of_def)
next
  case True
  let ?s0 = "s\<lparr> research_processes := Map.empty \<rparr>"
  from True have i0: "i < length (threads ?s0)" by simp
  show ?thesis
    using True
    unfolding written_status_def pc_of_def worker_step_processes[OF i0]
    by (cases "w_pc (threads s ! i)"; cases ev)
       (simp_all add: research_worker_def EnhancedAICoScientist_init_def log_activity_def Let_def)
qed

lemma worker_step_writes:
  "i < length (threads s) \<Longrightarrow>
   research_processes (fst (worker_step i ev s)) =
     (case written_status i ev s of
        None \<Rightarrow> research_processes s
      | Some v \<Rightarrow> (research_processes s)(w_session_id (threads s ! i) \<mapsto> v))"
  unfolding written_status_place worker_step_processes
  by (cases "w_pc (threads s ! i)"; cases ev)
     (simp_all add: pc_of_def research_worker_def EnhancedAICoScientist_init_def log_activity_def
        Let_def)

lemma terminal_write_place:
  "terminal_write i e s \<longleftrightarrow>
     e = Worker i Proceed \<and> (pc_of i s = Some SetCompleted \<or> pc_of i s = Some SetError)"
  by (auto simp: terminal_write_def status_write_def written_status_place
      split: event.splits option.splits if_splits)

lemma running_write_place:
  "status_write ''running'' i e s \<longleftrightarrow> e = Worker i Proceed \<and> pc_of i s = Some SetRunning"
  by (auto simp: status_write_def written_status_place
      split: event.splits option.splits if_splits)

lemma research_worker_first_place:
  "fst (research_worker w p ev s) = SetRunning \<longleftrightarrow> p = SetRunning \<and> ev \<noteq> Proceed"
  by (cases p; cases ev)
     (simp_all add: research_worker_def EnhancedAICoScientist_init_def Let_def)

lemma step_terminal_write:
  "terminal_write i e s \<longleftrightarrow> pc_of i s \<noteq> Some Done \<and> pc_of i (fst (step e s)) = Some Done"
  unfolding step_pc_of terminal_write_place
  by (auto simp: research_worker_done pc_of_def split: event.split)

lemma step_running_write:
  "status_write ''running'' i e s \<longleftrightarrow> \<not> started i s \<and> started i (fst (step e s))"
  unfolding started_def step_pc_of running_write_place
  by (auto simp: research_worker_first_place pc_of_def split: event.split)

lemma step_started_stays: "started i s \<Longrightarrow> started i (fst (step e s))"
  unfolding started_def step_pc_of
  by (auto simp: research_worker_first_place pc_of_def split: event.split)

lemma terminal_writes_once:
  "terminal_writes i evs s =
     (if pc_of i s \<noteq> Some Done \<and> pc_of i (run evs s) = Some Done then 1 else 0)"
  unfolding terminal_writes_def
  by (rule count_steps_once[where D = "\<lambda>s. pc_of i s = Some Done"])
     (simp_all add: step_done_stays step_terminal_write)

lemma running_writes_once:
  "running_writes i evs s = (if \<not> started i s \<and> started i (run evs s) then 1 else 0)"
  unfolding running_writes_def
  by (rule count_steps_once[where D = "started i"])
     (simp_all add: step_started_stays step_running_write)

lemma status_inv_start:
  assumes inv: "status_inv s" and apart: "sessions_apart (fst (start_research d now s))"
  shows "status_inv (fst (start_research d now s)) \<and>
         research_processes (fst (start_research d now s)) = research_processes s"
proof (cases "\<not> falsy (research_goal d) \<and> \<not> falsy (openai_api_key d)")
  case False
  then have "fst (start_research d now s) = s"
    by (auto simp: start_research_def)
  with inv show ?thesis by simp
next
  case True
  let ?new = "\<lparr> w_session_id = new_session_id now,
              w_research_goal = (case research_goal d of None \<Rightarrow> [] | Some g \<Rightarrow> g),
              w_openai_api_key = (case openai_api_key d of None \<Rightarrow> [] | Some k \<Rightarrow> k),
              w_serpapi_key = serpapi_key d, w_pc = SetRunning \<rparr>"
  let ?s' = "fst (start_research d now s)"
  from True have th: "threads ?s' = threads s @ [?new]"
    and pr: "research_processes ?s' = research_processes s"
    and rs: "research_results ?s' = research_results s"
    by (simp_all add: start_research_accepted)
  from apart th have fresh: "new_session_id now \<notin> set (map w_session_id (threads s))"
    by (simp add: sessions_apart_def)
  with inv have none: "research_processes s (new_session_id now) = None"
    by (simp add: status_inv_def)
  have "\<forall>i < length (threads ?s').
      pc_status (w_pc (threads ?s' ! i)) (research_processes ?s' (w_session_id (threads ?s' ! i))) \<and>
      pc_result (w_pc (threads ?s' ! i)) (research_processes ?s' (w_session_id (threads ?s' ! i)))
        (research_results ?s' (w_session_id (threads ?s' ! i)))"
  proof (intro allI impI)
    fix i assume "i < length (threads ?s')"
    then have "i < Suc (length (threads s))"
      by (simp add: th)
    then consider "i < length (threads s)" | "i = length (threads s)"
      by (auto simp: less_Suc_eq)
    then show "pc_status (w_pc (threads ?s' ! i))
        (research_processes ?s' (w_session_id (threads ?s' ! i))) \<and>
      pc_result (w_pc (threads ?s' ! i)) (research_processes ?s' (w_session_id (threads ?s' ! i)))
        (research_results ?s' (w_session_id (threads ?s' ! i)))"
    proof cases
      case 1
      with inv show ?thesis by (simp add: th pr rs nth_append status_inv_def)
    next
      case 2
      with none show ?thesis by (simp add: th pr)
    qed
  qed
  moreover have "\<forall>sid. sid \<notin> set (map w_session_id (threads ?s')) \<longrightarrow>
      research_processes ?s' sid = None"
    using inv by (simp add: th pr status_inv_def)
  ultimately show ?thesis
    using pr by (simp add: status_inv_def)
qed

lemma status_inv_worker:
  assumes inv: "status_inv s" and apart: "sessions_apart s" and i: "i < length (threads s)"
  shows "status_inv (fst (worker_step i ev s)) \<and>
         status_step_ok (research_processes s sid)
           (research_processes (fst (worker_step i ev s)) sid)"
proof -
  let ?w = "threads s ! i"
  let ?r = "research_worker ?w (w_pc ?w) ev s"
  let ?s' = "fst (worker_step i ev s)"
  have th: "threads ?s' = (threads s)[i := ?w\<lparr> w_pc := fst ?r \<rparr>]"
    using i by (rule worker_step_threads)
  have pr: "research_processes ?s' = research_processes (fst (snd ?r))"
    using i by (rule worker_step_processes)
  have ids: "map w_session_id (threads ?s') = map w_session_id (threads s)"
    using i by (simp add: th map_update list_update_same_conv)
  have rs: "research_results ?s' = research_results (fst (snd ?r))"
    using i by (rule worker_step_results)
  from inv i have now: "pc_status (w_pc ?w) (research_processes s (w_session_id ?w))"
    "pc_result (w_pc ?w) (research_processes s (w_session_id ?w))
       (research_results s (w_session_id ?w))"
    by (simp_all add: status_inv_def)
  note mine = research_worker_status[OF now, of ev]
  have other_result: "research_results ?s' x = research_results s x"
    if "x \<noteq> w_session_id ?w" for x
    using that by (simp add: rs research_worker_results_frame)
  have other: "research_processes ?s' x = research_processes s x" if "x \<noteq> w_session_id ?w" for x
    using that by (simp add: pr research_worker_processes_frame)
  have "\<forall>j < length (threads ?s').
      pc_status (w_pc (threads ?s' ! j)) (research_processes ?s' (w_session_id (threads ?s' ! j))) \<and>
      pc_result (w_pc (threads ?s' ! j)) (research_processes ?s' (w_session_id (threads ?s' ! j)))
        (research_results ?s' (w_session_id (threads ?s' ! j)))"
  proof (intro allI impI)
    fix j assume j: "j < length (threads ?s')"
    show "pc_status (w_pc (threads ?s' ! j))
        (research_processes ?s' (w_session_id (threads ?s' ! j))) \<and>
      pc_result (w_pc (threads ?s' ! j)) (research_processes ?s' (w_session_id (threads ?s' ! j)))
        (research_results ?s' (w_session_id (threads ?s' ! j)))"
    proof (cases "j = i")
      case True
      with i mine show ?thesis by (simp add: th pr rs)
    next
      case False
      from j have j': "j < length (threads s)" by (simp add: th)
      with False i apart have "w_session_id (threads s ! j) \<noteq> w_session_id ?w"
        by (auto simp: sessions_apart_def distinct_conv_nth)
      then have "research_processes ?s' (w_session_id (threads s ! j))
          = research_processes s (w_session_id (threads s ! j))"
        "research_results ?s' (w_session_id (threads s ! j))
          = research_results s (w_session_id (threads s ! j))"
        by (simp_all add: other other_result)
      with inv j' False show ?thesis by (simp add: th status_inv_def)
    qed
  qed
  moreover have "\<forall>x. x \<notin> set (map w_session_id (threads ?s')) \<longrightarrow> research_processes ?s' x = None"
  proof (intro allI impI)
    fix x assume x: "x \<notin> set (map w_session_id (threads ?s'))"
    with i have "x \<noteq> w_session_id ?w"
      unfolding ids by (metis length_map nth_map nth_mem)
    then have "research_processes ?s' x = research_processes s x" by (rule other)
    with inv x show "research_processes ?s' x = None"
      unfolding ids by (simp add: status_inv_def)
  qed
  moreover have "status_step_ok (research_processes s sid) (research_processes ?s' sid)"
  proof (cases "sid = w_session_id ?w")
    case True
    with mine show ?thesis by (simp add: pr)
  next
    case False
    then show ?thesis by (simp add: other status_step_ok_refl)
  qed
  ultimately show ?thesis by (simp add: status_inv_def)
qed

lemma status_inv_step:
  assumes inv: "status_inv s" and apart: "sessions_apart (fst (step e s))"
  shows "status_inv (fst (step e s)) \<and>
         status_step_ok (research_processes s sid) (research_processes (fst (step e s)) sid)"
proof (cases e)
  case (StartResearch d now)
  with apart have "sessions_apart (fst (start_research d now s))"
    by (simp add: case_prod_beta)
  from status_inv_start[OF inv this] StartResearch show ?thesis
    by (simp add: case_prod_beta status_step_ok_refl)
next
  case (ResearchStatus x)
  with inv show ?thesis by (simp add: status_step_ok_refl)
next
  case (Worker i ev)
  show ?thesis
  proof (cases "i < length (threads s)")
    case True
    from apart have "sessions_apart s" by (rule step_apart)
    from status_inv_worker[OF inv this True] Worker show ?thesis by simp
  next
    case False
    with inv Worker show ?thesis by (simp add: worker_step_idle status_step_ok_refl)
  qed
qed

lemma status_inv_run:
  "status_inv s \<Longrightarrow> sessions_apart (run evs s) \<Longrightarrow> status_inv (run evs s)"
proof (induction evs arbitrary: s)
  case Nil
  then show ?case by simp
next
  case (Cons e evs)
  from Cons.prems(2) have "sessions_apart (fst (step e s))"
    by (auto dest: run_apart)
  with Cons.prems(1) have "status_inv (fst (step e s))"
    by (simp add: status_inv_step)
  with Cons.prems(2) Cons.IH show ?case by simp
qed

lemma status_inv_initial: "status_inv initial_state"
  by (simp add: status_inv_def initial_state_def)


lemma status_inv_reachable:
  "sessions_apart (run evs initial_state) \<Longrightarrow> status_inv (run evs initial_state)"
  using status_inv_initial by (rule status_inv_run)

lemma status_inv_owner:
  assumes "status_inv s" and "research_processes s sid = Some v"
  obtains i where "i < length (threads s)" and "w_session_id (threads s ! i) = sid"
proof -
  from assms have "sid \<in> set (map w_session_id (threads s))"
    by (auto simp: status_inv_def)
  then obtain i where "i < length (threads s)" "w_session_id (threads s ! i) = sid"
    by (auto simp: in_set_conv_nth)
  then show ?thesis by (rule that)
qed

lemma status_inv_terminal:
  assumes inv: "status_inv s"
  shows "(research_processes s sid = Some ''completed'' \<longrightarrow> research_results s sid \<noteq> None) \<and>
         (research_processes s sid = Some ''error'' \<longrightarrow> is_error_record (research_results s sid))"
proof (intro conjI impI)
  assume st: "research_processes s sid = Some ''completed''"
  from inv st obtain i where i: "i < length (threads s)" "w_session_id (threads s ! i) = sid"
    by (rule status_inv_owner)
  with inv have "pc_status (w_pc (threads s ! i)) (Some ''completed'')"
    "pc_result (w_pc (threads s ! i)) (Some ''completed'') (research_results s sid)"
    using st by (auto simp: status_inv_def)
  then show "research_results s sid \<noteq> None"
    by (cases "w_pc (threads s ! i)") simp_all
next
  assume st: "research_processes s sid = Some ''error''"
  from inv st obtain i where i: "i < length (threads s)" "w_session_id (threads s ! i) = sid"
    by (rule status_inv_owner)
  with inv have "pc_status (w_pc (threads s ! i)) (Some ''error'')"
    "pc_result (w_pc (threads s ! i)) (Some ''error'') (research_results s sid)"
    using st by (auto simp: status_inv_def)
  then show "is_error_record (research_results s sid)"
    by (cases "w_pc (threads s ! i)") simp_all
qed

lemma status_inv_place:
  assumes inv: "status_inv s" and i: "pc_of i s = Some p"
  shows "pc_status p (research_processes s (w_session_id (threads s ! i)))"
  using assms by (auto simp: status_inv_def pc_of_def split: if_splits)

lemma worker_step_sid:
  "i < length (threads s) \<Longrightarrow>
   i < length (threads (fst (worker_step i ev s))) \<and>
   w_session_id (threads (fst (worker_step i ev s)) ! i) = w_session_id (threads s ! i)"
  by (simp add: worker_step_threads)

lemma store_then_set:
  assumes "pc_of i u = Some p" and "p = StoreResult r \<or> p = StoreError m"
  shows "pc_of i (run [Worker i Proceed, Worker i Proceed] u) = Some Done \<and>
         research_processes (run [Worker i Proceed, Worker i Proceed] u)
           (w_session_id (threads u ! i))
           = Some (if p = StoreResult r then ''completed'' else ''error'') \<and>
         research_results (run [Worker i Proceed, Worker i Proceed] u)
           (w_session_id (threads u ! i))
           = Some (if p = StoreResult r then r else error_record m)"
proof -
  let ?sid = "w_session_id (threads u ! i)"
  let ?u1 = "fst (worker_step i Proceed u)"
  let ?u2 = "fst (worker_step i Proceed ?u1)"
  from assms(1) have i: "i < length (threads u)" and p: "w_pc (threads u ! i) = p"
    by (simp_all add: pc_of_def split: if_splits)
  have u1: "threads ?u1 = (threads u)[i := (threads u ! i)
        \<lparr> w_pc := (if p = StoreResult r then SetCompleted else SetError) \<rparr>] \<and>
      research_results ?u1 ?sid = Some (if p = StoreResult r then r else error_record m)"
    using i p assms(2)
    by (auto simp add: worker_step_unfold research_worker_def Let_def error_record_def)
  with i have i1: "i < length (threads ?u1)"
      "w_pc (threads ?u1 ! i) = (if p = StoreResult r then SetCompleted else SetError)"
      "w_session_id (threads ?u1 ! i) = ?sid"
    by simp_all
  have "pc_of i ?u2 = Some Done \<and>
      research_processes ?u2 ?sid = Some (if p = StoreResult r then ''completed'' else ''error'') \<and>
      research_results ?u2 ?sid = Some (if p = StoreResult r then r else error_record m)"
    using i1 u1 by (simp add: pc_of_def worker_step_unfold research_worker_def Let_def)
  then show ?thesis by simp
qed

lemma kickoff_step:
  assumes "pc_of i u = Some p"
  shows "p = Kickoff sci \<Longrightarrow>
           pc_of i (fst (worker_step i (KickoffReturn r ts) u)) = Some (StoreResult r)"
    and "in_try p \<Longrightarrow>
           pc_of i (fst (worker_step i (failure p x ts) u)) = Some (StoreError (reported p x))"
  using assms
  by (cases p; simp add: worker_pc_step research_worker_def Let_def)+

lemma worker_outcome:
  assumes "pc_of i u = Some p"
  shows "p = Kickoff sci \<Longrightarrow>
           pc_of i (run [Worker i (KickoffReturn r ts), Worker i Proceed, Worker i Proceed] u)
             = Some Done \<and>
           research_processes (run [Worker i (KickoffReturn r ts), Worker i Proceed, Worker i Proceed] u)
             (w_session_id (threads u ! i)) = Some ''completed'' \<and>
           research_results (run [Worker i (KickoffReturn r ts), Worker i Proceed, Worker i Proceed] u)
             (w_session_id (threads u ! i)) = Some r"
    and "in_try p \<Longrightarrow>
           pc_of i (run [Worker i (failure p x ts), Worker i Proceed, Worker i Proceed] u)
             = Some Done \<and>
           research_processes (run [Worker i (failure p x ts), Worker i Proceed, Worker i Proceed] u)
             (w_session_id (threads u ! i)) = Some ''error'' \<and>
           research_results (run [Worker i (failure p x ts), Worker i Proceed, Worker i Proceed] u)
             (w_session_id (threads u ! i)) = Some (error_record (reported p x))"
proof -
  from assms have i: "i < length (threads u)"
    by (simp add: pc_of_def split: if_splits)
  {
    assume k: "p = Kickoff sci"
    let ?u1 = "fst (worker_step i (KickoffReturn r ts) u)"
    from kickoff_step(1)[OF assms k] have "pc_of i ?u1 = Some (StoreResult r)" .
    from store_then_set[OF this, of r "[]"] worker_step_sid[OF i, of "KickoffReturn r ts"]
    show "pc_of i (run [Worker i (KickoffReturn r ts), Worker i Proceed, Worker i Proceed] u)
             = Some Done \<and>
           research_processes (run [Worker i (KickoffReturn r ts), Worker i Proceed, Worker i Proceed] u)
             (w_session_id (threads u ! i)) = Some ''completed'' \<and>
           research_results (run [Worker i (KickoffReturn r ts), Worker i Proceed, Worker i Proceed] u)
             (w_session_id (threads u ! i)) = Some r"
      by simp
  }
  {
    assume t: "in_try p"
    let ?u1 = "fst (worker_step i (failure p x ts) u)"
    from kickoff_step(2)[OF assms t] have "pc_of i ?u1 = Some (StoreError (reported p x))" .
    from store_then_set[OF this, of JNull "reported p x"] worker_step_sid[OF i, of "failure p x ts"]
    show "pc_of i (run [Worker i (failure p x ts), Worker i Proceed, Worker i Proceed] u)
             = Some Done \<and>
           research_processes (run [Worker i (failure p x ts), Worker i Proceed, Worker i Proceed] u)
             (w_session_id (threads u ! i)) = Some ''error'' \<and>
           research_results (run [Worker i (failure p x ts), Worker i Proceed, Worker i Proceed] u)
             (w_session_id (threads u ! i)) = Some (error_record (reported p x))"
      by simp
  }
qed

lemmas eval_defs2 = eval_defs alice_scientist_def

lemma one_succeeds_one_fails_state:
  "threads (run one_succeeds_one_fails initial_state) =
     [\<lparr> w_session_id = ''research_100'', w_research_goal = ''protein folding'',
        w_openai_api_key = ''key-A'', w_serpapi_key = None, w_pc = Done \<rparr>,
      \<lparr> w_session_id = ''research_101'', w_research_goal = ''dark matter'',
        w_openai_api_key = ''key-B'', w_serpapi_key = Some ''serp-B'', w_pc = Done \<rparr>] \<and>
   research_processes (run one_succeeds_one_fails initial_state) ''research_100''
     = Some ''completed'' \<and>
   research_processes (run one_succeeds_one_fails initial_state) ''research_101''
     = Some ''error'' \<and>
   research_results (run one_succeeds_one_fails initial_state) ''research_100''
     = Some (JStr ''three research directions'') \<and>
   research_results (run one_succeeds_one_fails initial_state) ''research_101''
     = Some (JDict [(''error'', JStr ''Error in research process: 1 validation error for Agent'')])"
  by (simp add: one_succeeds_one_fails_def eval_defs)

lemma one_succeeds_one_fails_middle:
  "research_processes (run (take 11 one_succeeds_one_fails) initial_state) ''research_100''
     = Some ''running'' \<and>
   research_processes (run (take 11 one_succeeds_one_fails @ [Worker 0 Proceed]) initial_state)
     ''research_100'' = Some ''completed'' \<and>
   one_succeeds_one_fails
     = take 11 one_succeeds_one_fails @ Worker 0 Proceed # [Worker 1 Proceed]"
  by (simp add: one_succeeds_one_fails_def eval_defs)

lemma alice_running_state:
  "pc_of 0 (run alice_running initial_state) = Some (Kickoff alice_scientist) \<and>
   w_session_id (threads (run alice_running initial_state) ! 0) = ''research_100''"
  by (simp add: alice_running_def pc_of_def eval_defs2)

lemma alice_running_poll:
  "sessions_apart (run ([StartResearch alice 100] @ tl alice_running) initial_state) \<and>
   pc_of 0 (run [StartResearch alice 100] initial_state) = Some SetRunning \<and>
   pc_of 0 (run ([StartResearch alice 100] @ tl alice_running) initial_state)
     = Some (Kickoff alice_scientist) \<and>
   ''research_100'' = w_session_id (threads (run [StartResearch alice 100] initial_state) ! 0) \<and>
   logs_of ''research_100'' (run ([StartResearch alice 100] @ tl alice_running) initial_state)
     = [started_entry]"
  by (simp add: alice_running_def pc_of_def sessions_apart_def logs_of_def started_entry_def
      eval_defs2)

text \<open>
  The search tool is local to its thread. Compare two states of the process that agree
  on thread \<open>i\<close> and differ in anything else. A step of thread \<open>i\<close> leaves thread
  \<open>i\<close>, with its scientist, search tool, counter, cache and time stamp, in the same
  state in both, and makes the same sleeps and outbound searches. Steps of other threads
  and start requests do not touch thread \<open>i\<close>, and the constructor builds a new search
  tool from the session's own SerpAPI key.
\<close>

lemma search_tool_isolated:
  assumes "i < length (threads s)" and "i < length (threads s')"
    and "threads s ! i = threads s' ! i"
  shows "threads (fst (worker_step i ev s)) ! i = threads (fst (worker_step i ev s')) ! i \<and>
         snd (worker_step i ev s) = snd (worker_step i ev s') \<and>
         (j \<noteq> i \<longrightarrow> threads (fst (worker_step j ev' s)) ! i = threads s ! i) \<and>
         threads (fst (start_research d now s)) ! i = threads s ! i \<and>
         (w_pc (threads s ! i) = Construct \<longrightarrow>
            w_pc (threads (fst (worker_step i Proceed s)) ! i)
              = Prepare (fresh_scientist (threads s ! i)))"
proof -
  let ?w = "threads s ! i"
  have loc: "fst (research_worker ?w (w_pc ?w) ev s) = fst (research_worker ?w (w_pc ?w) ev s')"
    "snd (snd (research_worker ?w (w_pc ?w) ev s)) = snd (snd (research_worker ?w (w_pc ?w) ev s'))"
    using research_worker_local[of ?w "w_pc ?w" ev s s'] by simp_all
  have own: "threads (fst (worker_step i ev s)) ! i = threads (fst (worker_step i ev s')) ! i"
    using assms loc by (simp add: worker_step_threads)
  have out: "snd (worker_step i ev s) = snd (worker_step i ev s')"
    using assms loc by (simp add: worker_step_unfold Let_def)
  have fresh: "w_pc (threads (fst (worker_step i Proceed s)) ! i) = Prepare (fresh_scientist ?w)"
    if "w_pc ?w = Construct"
    using that assms(1) by (simp add: worker_step_threads research_worker_construct)
  from own out fresh assms(1) show ?thesis
    by (simp add: worker_step_other start_research_other)
qed

section \<open>Session ids\<close>

text \<open>
  Claim C10. The session id is \<^verbatim>\<open>research_\<close> followed by the time truncated to whole
  seconds. Two accepted requests in the same second get the same id, whatever happens in
  between; the second request sets the log of that id back to empty and starts a second
  thread with that id, whose first statement writes the status entry of that id.
\<close>

theorem same_second_same_session:
  assumes "py_int t1 = py_int t2"
    and "\<not> falsy (research_goal d1)" and "\<not> falsy (openai_api_key d1)"
    and "\<not> falsy (research_goal d2)" and "\<not> falsy (openai_api_key d2)"
    and "s1 = run evs (fst (start_research d1 t1 s))"
    and "s2 = fst (start_research d2 t2 s1)"
    and "sid = ''research_'' @ py_str (py_int t1)"
  shows "snd (start_research d1 t1 s) =
           (JDict [(''status'', JStr ''success''), (''session_id'', JStr sid),
                   (''message'', JStr ''Research process started'')], 200) \<and>
         snd (start_research d2 t2 s1) =
           (JDict [(''status'', JStr ''success''), (''session_id'', JStr sid),
                   (''message'', JStr ''Research process started'')], 200) \<and>
         research_logs s2 sid = Some [] \<and>
         length (threads s2) = Suc (length (threads s1)) \<and>
         length (threads s) < length (threads s1) \<and>
         w_session_id (threads s2 ! length (threads s)) = sid \<and>
         w_session_id (threads s2 ! length (threads s1)) = sid \<and>
         w_pc (threads s2 ! length (threads s1)) = SetRunning \<and>
         research_processes (fst (worker_step (length (threads s1)) Proceed s2)) sid
           = Some ''running''"
proof -
  have ids: "new_session_id t1 = sid" "new_session_id t2 = sid"
    using assms(1,8) by (simp_all add: new_session_id_def)
  let ?s0 = "fst (start_research d1 t1 s)"
  have first: "length (threads s) < length (threads ?s0)"
    "w_session_id (threads ?s0 ! length (threads s)) = sid"
    using assms(2,3) ids by (simp_all add: start_research_accepted)
  from run_threads_grow[of ?s0 evs] first assms(6)
  have kept: "length (threads s) < length (threads s1)"
    "w_session_id (threads s1 ! length (threads s)) = sid"
    by auto
  have second: "threads s2 = threads s1 @
      [\<lparr> w_session_id = sid,
         w_research_goal = (case research_goal d2 of None \<Rightarrow> [] | Some g \<Rightarrow> g),
         w_openai_api_key = (case openai_api_key d2 of None \<Rightarrow> [] | Some k \<Rightarrow> k),
         w_serpapi_key = serpapi_key d2, w_pc = SetRunning \<rparr>]"
    "research_logs s2 sid = Some []"
    using assms(4,5,7) ids by (simp_all add: start_research_accepted)
  have "research_processes (fst (worker_step (length (threads s1)) Proceed s2)) sid
      = Some ''running''"
    using second(1) by (simp add: worker_step_unfold research_worker_def Let_def)
  with kept second assms(2,3,4,5) ids show ?thesis
    by (simp add: start_research_accepted nth_append)
qed

text \<open>
  Two requests at 100 and 100.5 seconds, the first worker having started in between.
\<close>

theorem same_second_same_session_witness:
  "py_int 100 = py_int (201 / 2) \<and>
   snd (start_research alice 100 initial_state) =
     (JDict [(''status'', JStr ''success''), (''session_id'', JStr ''research_100''),
             (''message'', JStr ''Research process started'')], 200) \<and>
   snd (start_research bob (201 / 2) (run [Worker 0 Proceed] (fst (start_research alice 100 initial_state)))) =
     (JDict [(''status'', JStr ''success''), (''session_id'', JStr ''research_100''),
             (''message'', JStr ''Research process started'')], 200) \<and>
   w_session_id (threads (fst (start_research bob (201 / 2)
      (run [Worker 0 Proceed] (fst (start_research alice 100 initial_state))))) ! 0)
     = ''research_100'' \<and>
   w_session_id (threads (fst (start_research bob (201 / 2)
      (run [Worker 0 Proceed] (fst (start_research alice 100 initial_state))))) ! 1)
     = ''research_100''"
proof -
  have h1: "py_int 100 = py_int (201 / 2)" by (simp add: py_int_def)
  have h2: "\<not> falsy (research_goal alice)" "\<not> falsy (openai_api_key alice)"
    "\<not> falsy (research_goal bob)" "\<not> falsy (openai_api_key bob)"
    by (simp_all add: alice_def bob_def falsy_def)
  have sid: "''research_100'' = ''research_'' @ py_str (py_int 100)"
    using sid_100 by (simp add: new_session_id_def)
  have len: "length (threads initial_state) = 0"
    "length (threads (run [Worker 0 Proceed] (fst (start_research alice 100 initial_state)))) = 1"
    by (simp_all add: eval_defs)
  from same_second_same_session[where evs = "[Worker 0 Proceed]" and s = initial_state,
      OF h1 h2 refl refl sid]
    h1 len
  show ?thesis by simp
qed

section \<open>Polling a failed session\<close>

text \<open>
  Claim C1 against the code. Line 271 stores the message of the worker under
  \<^verbatim>\<open>"error"\<close> in \<^verbatim>\<open>research_results\<close>, and the only reader of that dictionary, line 325,
  is reached for the status \<^verbatim>\<open>"completed"\<close> only. When the set-up of the agents raises,
  the poll answers with the status \<^verbatim>\<open>"error"\<close>, an empty log and a null result: the
  message is stored and never returned. When \<^verbatim>\<open>crew.kickoff()\<close> raises, the message of
  line 248 is in the log that the poll returns (line 249), while the message of the worker
  is again left out.
\<close>

theorem error_poll_drops_message:
  "research_processes (run (setup_fails @ [Worker 0 Proceed, Worker 0 Proceed]) initial_state)
     ''research_100'' = Some ''error'' \<and>
   research_results (run (setup_fails @ [Worker 0 Proceed, Worker 0 Proceed]) initial_state)
     ''research_100''
     = Some (JDict [(''error'', JStr ''Error in research process: 1 validation error for Agent'')]) \<and>
   research_status ''research_100''
     (run (setup_fails @ [Worker 0 Proceed, Worker 0 Proceed]) initial_state)
     = (JDict [(''status'', JStr ''success''), (''process_status'', JStr ''error''),
               (''logs'', JList []), (''result'', JNull)], 200) \<and>
   research_results (run kickoff_fails initial_state) ''research_100''
     = Some (JDict [(''error'', JStr
         ''Error in research process: Error in research process: Incorrect API key provided'')]) \<and>
   research_status ''research_100'' (run kickoff_fails initial_state)
     = (JDict [(''status'', JStr ''success''), (''process_status'', JStr ''error''),
               (''logs'', JList
                  [log_entry ''2024-01-01 10:00:00'' ''Supervisor'' ''Process Started''
                     ''Goal: protein folding'',
                   log_entry ''2024-01-01 10:00:05'' ''Supervisor'' ''Process Error''
                     ''Error in research process: Incorrect API key provided'']),
               (''result'', JNull)], 200)"
  by (simp add: setup_fails_def kickoff_fails_def eval_defs)

section \<open>Polling right after the start\<close>

text \<open>
  Claim C2, as the code has it. An accepted start request answers with the session id,
  creates the empty log of the session and the thread at its first statement, and leaves
  \<^verbatim>\<open>research_processes\<close> as it is. In a run from the start of the process in which no
  two threads share a session id, every poll while the worker has not executed its first
  statement (line 256) is answered with 404, and every poll after that statement and
  before the worker has ended is answered with \<^verbatim>\<open>"running"\<close>, the log of the session and
  a null result. There is no status \<^verbatim>\<open>"pending"\<close>.
\<close>

theorem poll_before_worker_starts:
  assumes "sessions_apart (run (evs1 @ evs2) initial_state)"
    and "pc_of i (run evs1 initial_state) = Some SetRunning"
    and "pc_of i (run (evs1 @ evs2) initial_state) = Some p"
    and "p \<noteq> SetRunning" and "p \<noteq> Done"
    and "sid = w_session_id (threads (run evs1 initial_state) ! i)"
  shows "research_status sid (run evs1 initial_state) = not_found \<and>
         research_status sid (run (evs1 @ evs2) initial_state) =
           status_body ''running'' (logs_of sid (run (evs1 @ evs2) initial_state)) JNull \<and>
         (\<not> falsy (research_goal d) \<and> \<not> falsy (openai_api_key d) \<longrightarrow>
            snd (start_research d now s) =
              (JDict [(''status'', JStr ''success''), (''session_id'', JStr (new_session_id now)),
                      (''message'', JStr ''Research process started'')], 200) \<and>
            research_processes (fst (start_research d now s)) = research_processes s \<and>
            research_logs (fst (start_research d now s)) (new_session_id now) = Some [] \<and>
            pc_of (length (threads s)) (fst (start_research d now s)) = Some SetRunning \<and>
            w_session_id (threads (fst (start_research d now s)) ! length (threads s))
              = new_session_id now)"
proof -
  let ?s1 = "run evs1 initial_state"
  let ?s2 = "run (evs1 @ evs2) initial_state"
  have s2: "?s2 = run evs2 ?s1" by (rule run_append)
  from assms(1) have apart1: "sessions_apart ?s1"
    unfolding s2 by (rule run_apart)
  from apart1 have inv1: "status_inv ?s1" by (rule status_inv_reachable)
  from assms(1) have inv2: "status_inv ?s2" by (rule status_inv_reachable)
  from assms(2) have i: "i < length (threads ?s1)"
    by (simp add: pc_of_def split: if_splits)
  with run_threads_grow[of ?s1 evs2] assms(6)
  have sid2: "w_session_id (threads ?s2 ! i) = sid"
    unfolding s2 by simp
  from status_inv_place[OF inv1 assms(2)] assms(6)
  have "research_processes ?s1 sid = None" by simp
  then have before: "research_status sid ?s1 = not_found"
    by (rule research_status_unknown)
  from status_inv_place[OF inv2 assms(3)] sid2 assms(4,5)
  have "research_processes ?s2 sid = Some ''running''"
    by (cases p) simp_all
  then have after: "research_status sid ?s2 = status_body ''running'' (logs_of sid ?s2) JNull"
    by (rule research_status_running)
  from before after show ?thesis
    by (simp add: start_research_accepted pc_of_def)
qed

text \<open>
  The first request of a new process, polled at once and again when the worker has
  reached \<^verbatim>\<open>crew.kickoff()\<close>.
\<close>

theorem poll_before_worker_starts_witness:
  "sessions_apart (run ([StartResearch alice 100] @ tl alice_running) initial_state) \<and>
   pc_of 0 (run [StartResearch alice 100] initial_state) = Some SetRunning \<and>
   pc_of 0 (run ([StartResearch alice 100] @ tl alice_running) initial_state)
     = Some (Kickoff alice_scientist) \<and>
   \<not> falsy (research_goal alice) \<and> \<not> falsy (openai_api_key alice) \<and>
   research_status ''research_100'' (run [StartResearch alice 100] initial_state) = not_found \<and>
   research_status ''research_100''
     (run ([StartResearch alice 100] @ tl alice_running) initial_state)
     = status_body ''running'' [started_entry] JNull \<and>
   research_logs (fst (start_research alice 100 initial_state)) ''research_100'' = Some [] \<and>
   pc_of 0 (fst (start_research alice 100 initial_state)) = Some SetRunning"
proof -
  note a = alice_running_poll
  from a have h1: "sessions_apart (run ([StartResearch alice 100] @ tl alice_running) initial_state)"
    and h2: "pc_of 0 (run [StartResearch alice 100] initial_state) = Some SetRunning"
    and h3: "pc_of 0 (run ([StartResearch alice 100] @ tl alice_running) initial_state)
      = Some (Kickoff alice_scientist)"
    and h6: "''research_100'' = w_session_id (threads (run [StartResearch alice 100] initial_state) ! 0)"
    and logs: "logs_of ''research_100''
      (run ([StartResearch alice 100] @ tl alice_running) initial_state) = [started_entry]"
    by blast+
  have h4: "Kickoff alice_scientist \<noteq> SetRunning" and h5: "Kickoff alice_scientist \<noteq> Done"
    by simp_all
  have acc: "\<not> falsy (research_goal alice)" "\<not> falsy (openai_api_key alice)"
    by (simp_all add: alice_def falsy_def)
  have len: "length (threads initial_state) = 0"
    by (simp add: initial_state_def)
  from poll_before_worker_starts[OF h1 h2 h3 h4 h5 h6, of alice 100 initial_state]
    h1 h2 h3 acc logs len
  show ?thesis
    by (simp add: sid_100)
qed

text \<open>
  Claim C2 as stated excludes "not found" after the start response. The first request
  of a new process is accepted, and the poll that follows at once is answered with 404.
\<close>

theorem poll_before_worker_starts_counterexample:
  "snd (start_research alice 100 initial_state) =
     (JDict [(''status'', JStr ''success''), (''session_id'', JStr ''research_100''),
             (''message'', JStr ''Research process started'')], 200) \<and>
   research_status ''research_100'' (fst (start_research alice 100 initial_state)) =
     (JDict [(''status'', JStr ''error''), (''message'', JStr ''Session not found'')], 404)"
  by (simp add: eval_defs)

section \<open>The life cycle of a session\<close>

text \<open>
  Claim C5, as the code has it. There is no status \<^verbatim>\<open>"pending"\<close>. In a run from the
  start of the process in which no two threads share a session id, every step changes the
  status of a session not at all, from none to \<^verbatim>\<open>"running"\<close>, or from \<^verbatim>\<open>"running"\<close>
  to \<^verbatim>\<open>"completed"\<close> or \<^verbatim>\<open>"error"\<close>, so a terminal status stays; a session with the
  status \<^verbatim>\<open>"completed"\<close> has a result stored and one with the status \<^verbatim>\<open>"error"\<close>
  has an error record stored. In every run, shared ids or not, a worker writes
  \<^verbatim>\<open>"running"\<close> once when it starts, and writes a terminal status once if it has finished
  and never otherwise. A worker whose \<^verbatim>\<open>crew.kickoff()\<close> returns stores the result and
  writes \<^verbatim>\<open>"completed"\<close>; a worker inside the \<^verbatim>\<open>try\<close> block at which an exception is
  raised stores the message and writes \<^verbatim>\<open>"error"\<close>; either way that is its one
  terminal write.
\<close>

theorem status_lifecycle:
  "(sessions_apart (run (pre @ e # post) initial_state) \<longrightarrow>
      status_step_ok (research_processes (run pre initial_state) sid)
        (research_processes (run (pre @ [e]) initial_state) sid)) \<and>
   (sessions_apart (run evs initial_state) \<and>
    research_processes (run evs initial_state) sid_c = Some ''completed'' \<longrightarrow>
      research_results (run evs initial_state) sid_c \<noteq> None) \<and>
   (sessions_apart (run evs initial_state) \<and>
    research_processes (run evs initial_state) sid_e = Some ''error'' \<longrightarrow>
      is_error_record (research_results (run evs initial_state) sid_e)) \<and>
   running_writes i evs initial_state = (if started i (run evs initial_state) then 1 else 0) \<and>
   terminal_writes i evs initial_state =
     (if pc_of i (run evs initial_state) = Some Done then 1 else 0) \<and>
   (pc_of i u = Some (Kickoff sci) \<longrightarrow>
      pc_of i (run [Worker i (KickoffReturn r ts), Worker i Proceed, Worker i Proceed] u)
        = Some Done \<and>
      research_results (run [Worker i (KickoffReturn r ts), Worker i Proceed, Worker i Proceed] u)
        (w_session_id (threads u ! i)) = Some r \<and>
      research_processes (run [Worker i (KickoffReturn r ts), Worker i Proceed, Worker i Proceed] u)
        (w_session_id (threads u ! i)) = Some ''completed'' \<and>
      terminal_writes i [Worker i (KickoffReturn r ts), Worker i Proceed, Worker i Proceed] u = 1) \<and>
   (pc_of i u = Some p \<and> in_try p \<longrightarrow>
      pc_of i (run [Worker i (failure p x ts), Worker i Proceed, Worker i Proceed] u)
        = Some Done \<and>
      research_results (run [Worker i (failure p x ts), Worker i Proceed, Worker i Proceed] u)
        (w_session_id (threads u ! i)) = Some (error_record (reported p x)) \<and>
      research_processes (run [Worker i (failure p x ts), Worker i Proceed, Worker i Proceed] u)
        (w_session_id (threads u ! i)) = Some ''error'' \<and>
      terminal_writes i [Worker i (failure p x ts), Worker i Proceed, Worker i Proceed] u = 1)"
proof -
  have part1: "status_step_ok (research_processes (run pre initial_state) sid)
      (research_processes (run (pre @ [e]) initial_state) sid)"
    if apart: "sessions_apart (run (pre @ e # post) initial_state)"
  proof -
    have "run (pre @ e # post) initial_state = run post (run (pre @ [e]) initial_state)"
      by (simp add: run_append)
    with apart have "sessions_apart (run (pre @ [e]) initial_state)"
      by (auto dest: run_apart)
    then have a2: "sessions_apart (fst (step e (run pre initial_state)))"
      by (simp add: run_append)
    then have "sessions_apart (run pre initial_state)"
      by (rule step_apart)
    then have "status_inv (run pre initial_state)"
      by (rule status_inv_reachable)
    from status_inv_step[OF this a2, of sid] show ?thesis
      by (simp add: run_append)
  qed
  have part2: "(research_processes (run evs initial_state) sid_c = Some ''completed'' \<longrightarrow>
        research_results (run evs initial_state) sid_c \<noteq> None) \<and>
      (research_processes (run evs initial_state) sid_e = Some ''error'' \<longrightarrow>
        is_error_record (research_results (run evs initial_state) sid_e))"
    if "sessions_apart (run evs initial_state)"
    using status_inv_terminal[OF status_inv_reachable[OF that]] by blast
  have fresh: "pc_of i initial_state \<noteq> Some Done" "\<not> started i initial_state"
    by (simp_all add: pc_of_def started_def initial_state_def)
  then have part3: "running_writes i evs initial_state =
      (if started i (run evs initial_state) then 1 else 0)"
    and part4: "terminal_writes i evs initial_state =
      (if pc_of i (run evs initial_state) = Some Done then 1 else 0)"
    by (simp_all add: terminal_writes_once running_writes_once)
  have part5: "pc_of i (run [Worker i (KickoffReturn r ts), Worker i Proceed, Worker i Proceed] u)
        = Some Done \<and>
      research_results (run [Worker i (KickoffReturn r ts), Worker i Proceed, Worker i Proceed] u)
        (w_session_id (threads u ! i)) = Some r \<and>
      research_processes (run [Worker i (KickoffReturn r ts), Worker i Proceed, Worker i Proceed] u)
        (w_session_id (threads u ! i)) = Some ''completed'' \<and>
      terminal_writes i [Worker i (KickoffReturn r ts), Worker i Proceed, Worker i Proceed] u = 1"
    if k: "pc_of i u = Some (Kickoff sci)"
  proof -
    note out = worker_outcome(1)[OF k refl, of r ts]
    from k have "pc_of i u \<noteq> Some Done" by simp
    with out have "terminal_writes i
        [Worker i (KickoffReturn r ts), Worker i Proceed, Worker i Proceed] u = 1"
      by (simp only: terminal_writes_once) simp
    with out show ?thesis by blast
  qed
  have part6: "pc_of i (run [Worker i (failure p x ts), Worker i Proceed, Worker i Proceed] u)
        = Some Done \<and>
      research_results (run [Worker i (failure p x ts), Worker i Proceed, Worker i Proceed] u)
        (w_session_id (threads u ! i)) = Some (error_record (reported p x)) \<and>
      research_processes (run [Worker i (failure p x ts), Worker i Proceed, Worker i Proceed] u)
        (w_session_id (threads u ! i)) = Some ''error'' \<and>
      terminal_writes i [Worker i (failure p x ts), Worker i Proceed, Worker i Proceed] u = 1"
    if k: "pc_of i u = Some p" "in_try p"
  proof -
    note out = worker_outcome(2)[OF k, of x ts]
    from k have "pc_of i u \<noteq> Some Done" by auto
    with out have "terminal_writes i
        [Worker i (failure p x ts), Worker i Proceed, Worker i Proceed] u = 1"
      by (simp only: terminal_writes_once) simp
    with out show ?thesis by blast
  qed
  from part1 part2 part3 part4 part5 part6 show ?thesis by blast
qed

text \<open>
  One session completes while another, started a second later, fails in the set-up;
  and a session at \<^verbatim>\<open>crew.kickoff()\<close>, which returns or raises.
\<close>

theorem status_lifecycle_witness:
  "sessions_apart (run one_succeeds_one_fails initial_state) \<and>
   research_processes (run (take 11 one_succeeds_one_fails) initial_state) ''research_100''
     = Some ''running'' \<and>
   research_processes (run (take 11 one_succeeds_one_fails @ [Worker 0 Proceed]) initial_state)
     ''research_100'' = Some ''completed'' \<and>
   research_processes (run one_succeeds_one_fails initial_state) ''research_100''
     = Some ''completed'' \<and>
   research_results (run one_succeeds_one_fails initial_state) ''research_100'' \<noteq> None \<and>
   research_processes (run one_succeeds_one_fails initial_state) ''research_101''
     = Some ''error'' \<and>
   is_error_record (research_results (run one_succeeds_one_fails initial_state) ''research_101'') \<and>
   running_writes 0 one_succeeds_one_fails initial_state = 1 \<and>
   terminal_writes 0 one_succeeds_one_fails initial_state = 1 \<and>
   pc_of 0 (run alice_running initial_state) = Some (Kickoff alice_scientist) \<and>
   in_try (Kickoff alice_scientist) \<and>
   research_results
     (run [Worker 0 (KickoffReturn (JStr ''ok'') ''2024-01-01 10:05:00''), Worker 0 Proceed,
           Worker 0 Proceed] (run alice_running initial_state)) ''research_100''
     = Some (JStr ''ok'') \<and>
   research_processes
     (run [Worker 0 (KickoffReturn (JStr ''ok'') ''2024-01-01 10:05:00''), Worker 0 Proceed,
           Worker 0 Proceed] (run alice_running initial_state)) ''research_100''
     = Some ''completed'' \<and>
   research_results
     (run [Worker 0 (KickoffRaise ''Incorrect API key provided'' ''2024-01-01 10:05:00''),
           Worker 0 Proceed, Worker 0 Proceed] (run alice_running initial_state)) ''research_100''
     = Some (error_record
         ''Error in research process: Error in research process: Incorrect API key provided'') \<and>
   research_processes
     (run [Worker 0 (KickoffRaise ''Incorrect API key provided'' ''2024-01-01 10:05:00''),
           Worker 0 Proceed, Worker 0 Proceed] (run alice_running initial_state)) ''research_100''
     = Some ''error''"
proof -
  let ?all = "one_succeeds_one_fails"
  let ?pre = "take 11 one_succeeds_one_fails"
  let ?u = "run alice_running initial_state"
  note st = one_succeeds_one_fails_state
  note mid = one_succeeds_one_fails_middle
  have split: "?all = ?pre @ Worker 0 Proceed # [Worker 1 Proceed]"
    using mid by blast
  have apart: "sessions_apart (run ?all initial_state)"
    using st by (simp add: sessions_apart_def)
  then have apart': "sessions_apart (run (?pre @ Worker 0 Proceed # [Worker 1 Proceed]) initial_state)"
    using split by simp
  have c: "research_processes (run ?all initial_state) ''research_100'' = Some ''completed''"
    and e: "research_processes (run ?all initial_state) ''research_101'' = Some ''error''"
    using st by blast+
  have fin: "pc_of 0 (run ?all initial_state) = Some Done" "started 0 (run ?all initial_state)"
    using st by (simp_all add: pc_of_def started_def)
  have u: "pc_of 0 ?u = Some (Kickoff alice_scientist)" "in_try (Kickoff alice_scientist)"
    "w_session_id (threads ?u ! 0) = ''research_100''"
    using alice_running_state by simp_all
  note life = status_lifecycle[where pre = ?pre and e = "Worker 0 Proceed"
      and post = "[Worker 1 Proceed]" and sid = "''research_100''" and i = 0
      and evs = ?all and sid_c = "''research_100''" and sid_e = "''research_101''"
      and u = ?u and sci = alice_scientist and p = "Kickoff alice_scientist"
      and r = "JStr ''ok''" and x = "''Incorrect API key provided''"
      and ts = "''2024-01-01 10:05:00''"]
  from life apart apart' c e fin u mid
  show ?thesis
    by simp
qed

text \<open>
  Claim C5 as stated has no change after a terminal status. Two requests in the same
  second share the session id; the first worker ends with \<^verbatim>\<open>"error"\<close>, then the
  second worker starts and sets the status of the same session to \<^verbatim>\<open>"running"\<close>. Right
  after the first request the session has no status at all.
\<close>

theorem status_regress_counterexample:
  "research_processes (fst (start_research alice 100 initial_state)) ''research_100'' = None \<and>
   research_processes (run collision initial_state) ''research_100'' = Some ''error'' \<and>
   research_processes (run (collision @ [Worker 1 Proceed]) initial_state) ''research_100''
     = Some ''running'' \<and>
   w_session_id (threads (run collision initial_state) ! 0) = ''research_100'' \<and>
   w_session_id (threads (run collision initial_state) ! 1) = ''research_100''"
  by (simp add: collision_def eval_defs)

section \<open>Sessions side by side\<close>

text \<open>
  Claim C6 against the code. The OpenAI key of a session is an argument of the
  constructor, and the constructor puts it into \<^verbatim>\<open>os.environ['OPENAI_API_KEY']\<close> (line
  120), one variable for the whole process, while the SerpAPI key next to it is kept in
  the search tool of the session (lines 122 to 126). The agents and the crew are created
  without a key, so the runtime reads the variable. With two sessions running, the
  constructor of the second replaces the key of the first: the first job reaches
  \<^verbatim>\<open>crew.kickoff()\<close> with the key of the second session in place.
\<close>

theorem openai_key_shared:
  "w_openai_api_key (threads (run both_constructed initial_state) ! 0) = ''key-A'' \<and>
   w_openai_api_key (threads (run both_constructed initial_state) ! 1) = ''key-B'' \<and>
   w_session_id (threads (run both_constructed initial_state) ! 0) = ''research_100'' \<and>
   w_session_id (threads (run both_constructed initial_state) ! 1) = ''research_101'' \<and>
   environ (run [StartResearch alice 100, StartResearch bob 101, Worker 0 Proceed, Worker 0 Proceed]
      initial_state) ''OPENAI_API_KEY'' = Some ''key-A'' \<and>
   environ (run both_constructed initial_state) ''OPENAI_API_KEY'' = Some ''key-B'' \<and>
   pc_of 0 (run (both_constructed @ [Worker 0 (Started ''2024-01-01 10:00:00'')]) initial_state)
     = Some (Kickoff alice_scientist) \<and>
   environ (run (both_constructed @ [Worker 0 (Started ''2024-01-01 10:00:00'')]) initial_state)
     ''OPENAI_API_KEY'' = Some ''key-B''"
  by (simp add: both_constructed_def pc_of_def eval_defs2)

end
